theory Spec2Isabelle
  imports Main
begin

section \<open>The host's object model, as far as \<^verbatim>\<open>prac.c\<close> reads it\<close>

text \<open>
  \<^verbatim>\<open>prac.c\<close> is a CPython extension: every \<^verbatim>\<open>PyObject*\<close> is an address, and two
  objects are the same object exactly when their addresses are equal. The store maps an
  address to the fields of the object that the program reads: the header field
  \<^verbatim>\<open>ob_type\<close> of every object, \<^verbatim>\<open>tp_name\<close> (and the base class) of a type object,
  \<^verbatim>\<open>func_annotations\<close> of a function object. The annotations dictionary is kept as the
  list of its (key, value) items in iteration order, \<open>None\<close> being the C pointer
  \<^verbatim>\<open>NULL\<close>; its keys are strings (the program asserts \<^verbatim>\<open>PyUnicode_CheckExact\<close> of each).
\<close>

type_synonym ref = nat

datatype pyobject =
    Type_object (ob_type: ref) (tp_name: string) (tp_base: "ref option")
  | Function_object (ob_type: ref) (func_code: ref) (func_annotations: "(string \<times> ref) list option")
  | Other_object (ob_type: ref)

text \<open>The addresses of the two static type objects the program names.\<close>

definition PyType_Type :: ref where
  "PyType_Type = 0"

definition PyFunction_Type :: ref where
  "PyFunction_Type = 1"

text \<open>
  A code object is immutable; the model passes it by value, with its address. The frame
  holds its code object and the array \<^verbatim>\<open>f_localsplus\<close>: first the slots of the local
  variables, one per name of \<^verbatim>\<open>co_varnames\<close> and in that order, then the further slots of
  the frame (cells, free variables, value stack). A slot is \<open>None\<close> when the C pointer is
  \<^verbatim>\<open>NULL\<close> (an unbound local, an empty slot).
\<close>

record PyCodeObject =
  co_addr :: ref
  co_varnames :: "string list"

record PyFrameObject =
  f_code :: PyCodeObject
  f_localsplus :: "ref option list"

text \<open>
  The \<^verbatim>\<open>void*\<close> stored in the per-code extra slot: \<^verbatim>\<open>NULL\<close>, the marker
  \<^verbatim>\<open>SENTINEL = (void*)1\<close>, or the address of an object.
\<close>

datatype void_ptr = NULL | SENTINEL | Ptr ref

datatype exc_type = PyExc_TypeError | PyExc_ValueError

datatype freefunc = Prac_code_freefunc

datatype eval_frame_func = PyEval_EvalFrameDefault | Prac_eval_frame | Other_eval_frame nat

text \<open>
  The mutable state: the object store and the reference counts, the thread's error
  indicator, the extra slots of the code objects (per code address and slot index) with the
  interpreter's count of reserved indices and their release callbacks, the frame evaluation
  function of each interpreter (in the order of \<^verbatim>\<open>PyInterpreterState_Head/Next\<close>), and the
  two static variables of \<^verbatim>\<open>prac.c\<close>: \<^verbatim>\<open>extra_idx\<close> and the function pointer
  \<^verbatim>\<open>gc_get_referrers\<close> (here: whether it is non-\<^verbatim>\<open>NULL\<close>).
  \<open>resolver_calls\<close> is instrumentation: it counts the invocations of
  \<open>get_function_for_code\<close> per code address, and nothing reads it.
\<close>

record pystate =
  heap :: "ref \<Rightarrow> pyobject"
  ob_refcnt :: "ref \<Rightarrow> int"
  curexc :: "(exc_type \<times> string) option"
  co_extra :: "ref \<Rightarrow> nat \<Rightarrow> void_ptr"
  co_extra_user_count :: nat
  co_extra_freefuncs :: "nat \<Rightarrow> freefunc option"
  eval_frame :: "eval_frame_func list"
  extra_idx :: nat
  gc_get_referrers :: bool
  resolver_calls :: "ref \<Rightarrow> nat"

text \<open>
  What the host answers during one call, and how the extension was built:
  whether \<^verbatim>\<open>assert\<close> is compiled in, whether \<^verbatim>\<open>gc.get_referrers\<close> can be found
  (import, attribute lookup and \<^verbatim>\<open>PyCFunction_CheckExact\<close>), whether the allocations of
  \<^verbatim>\<open>PyTuple_Pack\<close>, \<^verbatim>\<open>PyMapping_Items\<close> and \<^verbatim>\<open>PyObject_GetIter\<close> succeed, and the list
  that \<^verbatim>\<open>gc.get_referrers\<close> returns for a code object (\<open>None\<close>: it returned \<^verbatim>\<open>NULL\<close>).
\<close>

record host_env =
  assertions_enabled :: bool
  gc_lookup_ok :: bool
  tuple_pack_ok :: bool
  referrers_of :: "ref \<Rightarrow> ref list option"
  mapping_items_ok :: bool
  get_iter_ok :: bool

text \<open>How the process can die inside the extension.\<close>

datatype crash =
    Assertion_failed
  | Aborted string
  | Out_of_bounds_read
  | Null_dereference

text \<open>
  What \<open>prac_eval_frame\<close> returns: \<^verbatim>\<open>NULL\<close>, or whatever the tail call
  \<^verbatim>\<open>_PyEval_EvalFrameDefault(tstate, f, exc)\<close> returns. The callee's body runs in that
  tail call and nowhere else.
\<close>

datatype eval_result =
    Returns_NULL
  | EvalFrameDefault nat PyFrameObject int

subsection \<open>Macros and functions of the C API\<close>

definition Py_TYPE :: "(ref \<Rightarrow> pyobject) \<Rightarrow> ref \<Rightarrow> ref" where
  "Py_TYPE h ob = ob_type (h ob)"

definition Py_IS_TYPE :: "(ref \<Rightarrow> pyobject) \<Rightarrow> ref \<Rightarrow> ref \<Rightarrow> bool" where
  "Py_IS_TYPE h ob t = (Py_TYPE h ob = t)"

definition PyType_CheckExact :: "(ref \<Rightarrow> pyobject) \<Rightarrow> ref \<Rightarrow> bool" where
  "PyType_CheckExact h ob = Py_IS_TYPE h ob PyType_Type"

definition PyFunction_Check :: "(ref \<Rightarrow> pyobject) \<Rightarrow> ref \<Rightarrow> bool" where
  "PyFunction_Check h ob = Py_IS_TYPE h ob PyFunction_Type"

definition Py_INCREF :: "ref \<Rightarrow> pystate \<Rightarrow> pystate" where
  "Py_INCREF ob s = s\<lparr>ob_refcnt := (ob_refcnt s)(ob := ob_refcnt s ob + 1)\<rparr>"

definition Py_DECREF :: "ref \<Rightarrow> pystate \<Rightarrow> pystate" where
  "Py_DECREF ob s = s\<lparr>ob_refcnt := (ob_refcnt s)(ob := ob_refcnt s ob - 1)\<rparr>"

definition PyErr_Clear :: "pystate \<Rightarrow> pystate" where
  "PyErr_Clear s = s\<lparr>curexc := None\<rparr>"

definition PyErr_Format :: "exc_type \<Rightarrow> string \<Rightarrow> pystate \<Rightarrow> pystate" where
  "PyErr_Format exc msg s = s\<lparr>curexc := Some (exc, msg)\<rparr>"

text \<open>
  The extra slots, which belong to the host (CPython) and not to \<^verbatim>\<open>prac.c\<close>.
  \<^verbatim>\<open>_PyCode_GetExtra\<close> fails only when its argument is not a code object, which the type
  of \<open>code\<close> excludes; a slot never written reads as \<^verbatim>\<open>NULL\<close>. \<^verbatim>\<open>_PyCode_SetExtra\<close>
  stores the pointer: the program ignores its return value, and the model is of a store
  that succeeds, as it does for an index reserved in the running interpreter.
\<close>

definition PyCode_GetExtra :: "PyCodeObject \<Rightarrow> nat \<Rightarrow> pystate \<Rightarrow> void_ptr option" where
  "PyCode_GetExtra code idx s = Some (co_extra s (co_addr code) idx)"

definition PyCode_SetExtra :: "PyCodeObject \<Rightarrow> nat \<Rightarrow> void_ptr \<Rightarrow> pystate \<Rightarrow> pystate" where
  "PyCode_SetExtra code idx extra s =
     s\<lparr>co_extra := (co_extra s)(co_addr code := (co_extra s (co_addr code))(idx := extra))\<rparr>"

text \<open>
  \<^verbatim>\<open>_PyEval_RequestCodeExtraIndex\<close>, of the host as well: every request hands out the next
  free index and registers the callback for it, until the host's table of
  \<open>MAX_CO_EXTRA_USERS\<close> is used up; then it returns \<open>-1\<close>, which the program reports as
  \<^verbatim>\<open>used all code extras!\<close>.
\<close>

definition MAX_CO_EXTRA_USERS :: nat where
  "MAX_CO_EXTRA_USERS = 255"

definition PyEval_RequestCodeExtraIndex :: "freefunc \<Rightarrow> pystate \<Rightarrow> int \<times> pystate" where
  "PyEval_RequestCodeExtraIndex free s =
     (if co_extra_user_count s = MAX_CO_EXTRA_USERS - 1 then (- 1, s)
      else (int (co_extra_user_count s),
            s\<lparr>co_extra_user_count := co_extra_user_count s + 1,
              co_extra_freefuncs := (co_extra_freefuncs s)(co_extra_user_count s \<mapsto> free)\<rparr>))"

text \<open>The character \<^verbatim>\<open>'\<close> and the line feed of the C string literals.\<close>

definition apostrophe :: string where
  "apostrophe = [CHR 0x27]"

definition line_feed :: string where
  "line_feed = [CHR 0x0A]"

section \<open>The program\<close>

subsection \<open>\<^verbatim>\<open>get_function_for_code\<close>\<close>

text \<open>
  The loop over the list of referrers: \<^verbatim>\<open>continue\<close> on an element that is not a function,
  otherwise take it, \<^verbatim>\<open>Py_INCREF\<close> it and \<^verbatim>\<open>break\<close>.
\<close>

fun referrers_loop :: "ref list \<Rightarrow> pystate \<Rightarrow> ref option \<times> pystate" where
  "referrers_loop [] s = (None, s)"
| "referrers_loop (r # referrers) s =
     (if \<not> PyFunction_Check (heap s) r then referrers_loop referrers s
      else (Some r, Py_INCREF r s))"

text \<open>
  The function first fills the static pointer \<^verbatim>\<open>gc_get_referrers\<close> if it is still
  \<^verbatim>\<open>NULL\<close>, and aborts the process when that fails. The temporary references held by the
  argument tuple and by the list of referrers are taken and given back inside the function
  and are not modelled.
\<close>

definition gc_abort_message :: string where
  "gc_abort_message = ''couldn'' @ apostrophe @ ''t find gc.get_referrers?'' @ line_feed"

definition get_function_for_code :: "host_env \<Rightarrow> PyCodeObject \<Rightarrow> pystate \<Rightarrow> crash + (ref option \<times> pystate)" where
  "get_function_for_code env code s0 =
     (let s = s0\<lparr>resolver_calls :=
                  (resolver_calls s0)(co_addr code := resolver_calls s0 (co_addr code) + 1)\<rparr>
      in if \<not> gc_get_referrers s \<and> \<not> gc_lookup_ok env then Inl (Aborted gc_abort_message)
         else let s1 = s\<lparr>gc_get_referrers := True\<rparr>
              in if \<not> tuple_pack_ok env then Inr (None, PyErr_Clear s1)
                 else (case referrers_of env (co_addr code) of
                         None \<Rightarrow> Inr (None, PyErr_Clear s1)
                       | Some referrers \<Rightarrow> Inr (referrers_loop referrers s1)))"

subsection \<open>\<^verbatim>\<open>do_type_checking\<close>\<close>

text \<open>
  The inner \<^verbatim>\<open>for\<close> loop: the index of the first name equal to the key, counting from
  \<open>varname_idx\<close>; the length of the tuple when no name is equal.
\<close>

fun varnames_loop :: "string list \<Rightarrow> string \<Rightarrow> nat \<Rightarrow> nat" where
  "varnames_loop [] key varname_idx = varname_idx"
| "varnames_loop (name # names) key varname_idx =
     (if name = key then varname_idx else varnames_loop names key (varname_idx + 1))"

definition type_expected_message :: "string \<Rightarrow> string" where
  "type_expected_message name =
     ''type expected (for now): '' @ apostrophe @ name @ apostrophe @ line_feed"

definition prac_message :: "string \<Rightarrow> string \<Rightarrow> string \<Rightarrow> string" where
  "prac_message expected got param =
     ''PRAC: expected type '' @ apostrophe @ expected @ apostrophe @
     '', got '' @ apostrophe @ got @ apostrophe @
     '' for parameter '' @ apostrophe @ param @ apostrophe"

text \<open>
  The \<^verbatim>\<open>while\<close> loop over the items. For each item, in the order of the source: the name
  lookup and its assertion, the read of the slot (outside the slots of the local variables
  it is an out-of-bounds read), the test that the declared value is exactly a type (else
  \<^verbatim>\<open>printf\<close> and \<^verbatim>\<open>abort\<close>), and the comparison \<^verbatim>\<open>Py_IS_TYPE(arg, expected)\<close>, which
  dereferences \<^verbatim>\<open>arg\<close>. The result is the value of \<^verbatim>\<open>ret\<close>.
\<close>

fun items_loop :: "host_env \<Rightarrow> PyCodeObject \<Rightarrow> PyFrameObject \<Rightarrow> (string \<times> ref) list \<Rightarrow> pystate
    \<Rightarrow> crash + (bool \<times> pystate)" where
  "items_loop env code f [] s = Inr (False, s)"
| "items_loop env code f ((key, val) # items) s =
     (let varname_idx = varnames_loop (co_varnames code) key 0
      in if assertions_enabled env \<and> varname_idx = length (co_varnames code)
         then Inl Assertion_failed
         else if \<not> varname_idx < length (f_localsplus f) then Inl Out_of_bounds_read
         else if \<not> PyType_CheckExact (heap s) val
         then Inl (Aborted (type_expected_message (tp_name (heap s (Py_TYPE (heap s) val)))))
         else (case f_localsplus f ! varname_idx of
                 None \<Rightarrow> Inl Null_dereference
               | Some arg \<Rightarrow>
                   if \<not> Py_IS_TYPE (heap s) arg val
                   then Inr (True,
                          PyErr_Format PyExc_TypeError
                            (prac_message (tp_name (heap s val))
                               (tp_name (heap s (Py_TYPE (heap s) arg))) key) s)
                   else items_loop env code f items s))"

definition do_type_checking :: "host_env \<Rightarrow> ref \<Rightarrow> PyCodeObject \<Rightarrow> PyFrameObject \<Rightarrow> pystate
    \<Rightarrow> crash + (bool \<times> pystate)" where
  "do_type_checking env func code f s =
     (case func_annotations (heap s func) of
        None \<Rightarrow> Inr (False, s)
      | Some items \<Rightarrow>
          if \<not> mapping_items_ok env then Inr (False, PyErr_Clear s)
          else if \<not> get_iter_ok env then Inr (False, PyErr_Clear s)
          else items_loop env code f items s)"

subsection \<open>\<^verbatim>\<open>prac_eval_frame\<close>\<close>

text \<open>The end of the function, from the call of \<open>do_type_checking\<close> on.\<close>

definition check_then_eval :: "host_env \<Rightarrow> nat \<Rightarrow> PyFrameObject \<Rightarrow> int \<Rightarrow> ref \<Rightarrow> pystate
    \<Rightarrow> crash + (eval_result \<times> pystate)" where
  "check_then_eval env tstate f exc func s =
     (case do_type_checking env func (f_code f) f s of
        Inl c \<Rightarrow> Inl c
      | Inr (ret, s') \<Rightarrow>
          if ret then Inr (Returns_NULL, s')
          else Inr (EvalFrameDefault tstate f exc, s'))"

definition prac_eval_frame :: "host_env \<Rightarrow> nat \<Rightarrow> PyFrameObject \<Rightarrow> int \<Rightarrow> pystate
    \<Rightarrow> crash + (eval_result \<times> pystate)" where
  "prac_eval_frame env tstate f exc s =
     (case PyCode_GetExtra (f_code f) (extra_idx s) s of
        None \<Rightarrow> Inr (EvalFrameDefault tstate f exc, s)
      | Some extra \<Rightarrow>
          (case extra of
             NULL \<Rightarrow>
               (case get_function_for_code env (f_code f) s of
                  Inl c \<Rightarrow> Inl c
                | Inr (func, s1) \<Rightarrow>
                    (let s2 = PyCode_SetExtra (f_code f) (extra_idx s1)
                                (case func of Some fn \<Rightarrow> Ptr fn | None \<Rightarrow> SENTINEL) s1
                     in case func of
                          None \<Rightarrow> Inr (EvalFrameDefault tstate f exc, s2)
                        | Some fn \<Rightarrow> check_then_eval env tstate f exc fn s2))
           | SENTINEL \<Rightarrow> Inr (EvalFrameDefault tstate f exc, s)
           | Ptr func \<Rightarrow> check_then_eval env tstate f exc func s))"

subsection \<open>\<^verbatim>\<open>prac_code_freefunc\<close>\<close>

definition prac_code_freefunc :: "void_ptr \<Rightarrow> pystate \<Rightarrow> pystate" where
  "prac_code_freefunc extra s =
     (if extra \<noteq> NULL \<and> extra \<noteq> SENTINEL
      then (case extra of Ptr ob \<Rightarrow> Py_DECREF ob s | _ \<Rightarrow> s)
      else s)"

text \<open>
  The host destroys a code object (\<^verbatim>\<open>code_dealloc\<close>, of the host) by going through the
  slot indices it has handed out, in increasing order, and calling the callback registered
  for an index on the pointer stored in the slot of that index, whatever the pointer is;
  then it frees the slots. A slot never written holds \<^verbatim>\<open>NULL\<close> (the host leaves out the
  indices handed out after the slots of the code object were allocated; their slots were
  never written, and \<open>prac_code_freefunc\<close> does nothing on \<^verbatim>\<open>NULL\<close>). The only callback
  the model knows is the one \<open>prac_enable\<close> registers, \<open>prac_code_freefunc\<close>.
\<close>

definition call_freefunc :: "freefunc \<Rightarrow> void_ptr \<Rightarrow> pystate \<Rightarrow> pystate" where
  "call_freefunc free_extra extra s =
     (case free_extra of Prac_code_freefunc \<Rightarrow> prac_code_freefunc extra s)"

fun extras_loop :: "nat \<Rightarrow> ref \<Rightarrow> pystate \<Rightarrow> pystate" where
  "extras_loop 0 code s = s"
| "extras_loop (Suc i) code s =
     (let s' = extras_loop i code s
      in case co_extra_freefuncs s' i of
           None \<Rightarrow> s'
         | Some free_extra \<Rightarrow> call_freefunc free_extra (co_extra s' code i) s')"

definition code_dealloc :: "PyCodeObject \<Rightarrow> pystate \<Rightarrow> pystate" where
  "code_dealloc code s =
     (extras_loop (co_extra_user_count s) (co_addr code) s)
       \<lparr>co_extra := (co_extra s)(co_addr code := (\<lambda>idx. NULL))\<rparr>"

subsection \<open>\<^verbatim>\<open>prac_enable\<close>\<close>

text \<open>The \<^verbatim>\<open>while\<close> loop over the interpreters, with its assertion.\<close>

fun interp_loop :: "host_env \<Rightarrow> eval_frame_func list \<Rightarrow> crash + eval_frame_func list" where
  "interp_loop env [] = Inr []"
| "interp_loop env (func # interps) =
     (if assertions_enabled env \<and> func \<noteq> PyEval_EvalFrameDefault then Inl Assertion_failed
      else (case interp_loop env interps of
              Inl c \<Rightarrow> Inl c
            | Inr interps' \<Rightarrow> Inr (Prac_eval_frame # interps')))"

text \<open>The result is \<open>False\<close> for the return value \<^verbatim>\<open>NULL\<close>, \<open>True\<close> for \<^verbatim>\<open>Py_None\<close>.\<close>

definition prac_enable :: "host_env \<Rightarrow> pystate \<Rightarrow> crash + (bool \<times> pystate)" where
  "prac_enable env s =
     (case PyEval_RequestCodeExtraIndex Prac_code_freefunc s of
        (extra_idx', s1) \<Rightarrow>
          if extra_idx' < 0
          then Inr (False, PyErr_Format PyExc_ValueError ''used all code extras!'' s1)
          else (let s2 = s1\<lparr>extra_idx := nat extra_idx'\<rparr>
                in case interp_loop env (eval_frame s2) of
                     Inl c \<Rightarrow> Inl c
                   | Inr interps \<Rightarrow> Inr (True, s2\<lparr>eval_frame := interps\<rparr>)))"

section \<open>Notions used to state the properties\<close>

text \<open>
  The value of the local variable named \<open>key\<close> in a frame: \<open>None\<close> when the code object
  has no such name (or the frame no such slot), \<open>Some None\<close> when the slot is unbound,
  \<open>Some (Some arg)\<close> when it holds the object \<open>arg\<close>.
\<close>

definition local_of :: "PyCodeObject \<Rightarrow> PyFrameObject \<Rightarrow> string \<Rightarrow> ref option option" where
  "local_of code f key = map_of (zip (co_varnames code) (f_localsplus f)) key"

text \<open>
  A contract entry is supported when its declared value is exactly a type and its name is
  a local variable bound to a value; it is satisfied when, moreover, that value's type is
  the declared type itself; it is a mismatch when the name is bound to a value of another
  type.
\<close>

definition supported :: "(ref \<Rightarrow> pyobject) \<Rightarrow> PyCodeObject \<Rightarrow> PyFrameObject \<Rightarrow> string \<times> ref \<Rightarrow> bool" where
  "supported h code f item =
     (PyType_CheckExact h (snd item) \<and>
      (case local_of code f (fst item) of Some (Some arg) \<Rightarrow> True | _ \<Rightarrow> False))"

definition contract_satisfied :: "(ref \<Rightarrow> pyobject) \<Rightarrow> PyCodeObject \<Rightarrow> PyFrameObject \<Rightarrow> string \<times> ref \<Rightarrow> bool" where
  "contract_satisfied h code f item =
     (PyType_CheckExact h (snd item) \<and>
      (case local_of code f (fst item) of
         Some (Some arg) \<Rightarrow> Py_TYPE h arg = snd item
       | _ \<Rightarrow> False))"

definition mismatch :: "(ref \<Rightarrow> pyobject) \<Rightarrow> PyCodeObject \<Rightarrow> PyFrameObject \<Rightarrow> string \<times> ref \<Rightarrow> bool" where
  "mismatch h code f item =
     (case local_of code f (fst item) of
        Some (Some arg) \<Rightarrow> Py_TYPE h arg \<noteq> snd item
      | _ \<Rightarrow> False)"

text \<open>
  \<open>inherits_from n h t u\<close>: the type \<open>u\<close> is reached from the type \<open>t\<close> in at least one
  and at most \<open>n\<close> steps along \<^verbatim>\<open>tp_base\<close>.
\<close>

fun inherits_from :: "nat \<Rightarrow> (ref \<Rightarrow> pyobject) \<Rightarrow> ref \<Rightarrow> ref \<Rightarrow> bool" where
  "inherits_from 0 h t u = False"
| "inherits_from (Suc n) h t u =
     (case h t of
        Type_object m name (Some base) \<Rightarrow> base = u \<or> inherits_from n h base u
      | _ \<Rightarrow> False)"

text \<open>
  The function object a call is checked against: the one cached in the slot of the
  frame's code object, or, when the slot is still \<^verbatim>\<open>NULL\<close>, the one the resolver returns.
\<close>

definition resolves_to :: "host_env \<Rightarrow> PyFrameObject \<Rightarrow> pystate \<Rightarrow> ref \<Rightarrow> bool" where
  "resolves_to env f s fn =
     (case co_extra s (co_addr (f_code f)) (extra_idx s) of
        NULL \<Rightarrow> (case get_function_for_code env (f_code f) s of
                   Inr (Some fn', s') \<Rightarrow> fn' = fn
                 | _ \<Rightarrow> False)
      | SENTINEL \<Rightarrow> False
      | Ptr fn' \<Rightarrow> fn' = fn)"

text \<open>
  The call is checked against no function at all: the slot holds the marker, or it is
  still \<^verbatim>\<open>NULL\<close> and the resolver returns \<^verbatim>\<open>NULL\<close>.
\<close>

definition no_owner :: "host_env \<Rightarrow> PyFrameObject \<Rightarrow> pystate \<Rightarrow> bool" where
  "no_owner env f s =
     (case co_extra s (co_addr (f_code f)) (extra_idx s) of
        NULL \<Rightarrow> (case get_function_for_code env (f_code f) s of
                   Inr (None, s') \<Rightarrow> True
                 | _ \<Rightarrow> False)
      | SENTINEL \<Rightarrow> True
      | Ptr fn' \<Rightarrow> False)"

text \<open>
  The life of the process after a first \<open>prac_enable\<close>, as a sequence of events: an
  intercepted call (with what the host answers during it), anything else the host does to
  the objects, the reference counts and the error indicator, such as creating a function
  object, or a further call of \<open>prac_enable\<close>. A crash ends the run. The callee's body
  runs in the tail call of \<open>prac_eval_frame\<close>, so what it does comes as later events.
\<close>

datatype event =
    Intercept host_env nat PyFrameObject int
  | Host_mutation "ref \<Rightarrow> pyobject" "ref \<Rightarrow> int" "(exc_type \<times> string) option"
  | Enable host_env

fun enables :: "event \<Rightarrow> bool" where
  "enables (Enable env) = True"
| "enables ev = False"

fun run :: "event list \<Rightarrow> pystate \<Rightarrow> crash + pystate" where
  "run [] s = Inr s"
| "run (Intercept env tstate f exc # events) s =
     (case prac_eval_frame env tstate f exc s of
        Inl c \<Rightarrow> Inl c
      | Inr (r, s') \<Rightarrow> run events s')"
| "run (Host_mutation h rc e # events) s =
     run events (s\<lparr>heap := h, ob_refcnt := rc, curexc := e\<rparr>)"
| "run (Enable env # events) s =
     (case prac_enable env s of
        Inl c \<Rightarrow> Inl c
      | Inr (ok, s') \<Rightarrow> run events s')"

definition cache_slot :: "pystate \<Rightarrow> ref \<Rightarrow> void_ptr" where
  "cache_slot s c = co_extra s c (extra_idx s)"

definition cache_inv :: "pystate \<Rightarrow> bool" where
  "cache_inv s \<longleftrightarrow> (\<forall>c. resolver_calls s c = (if cache_slot s c = NULL then 0 else 1))"

section \<open>Example objects\<close>

text \<open>
  A small store: the types \<^verbatim>\<open>type\<close>, \<^verbatim>\<open>function\<close>, \<^verbatim>\<open>object\<close>, \<^verbatim>\<open>int\<close>, \<^verbatim>\<open>str\<close>,
  \<^verbatim>\<open>bool\<close> (a subclass of \<^verbatim>\<open>int\<close>) and \<^verbatim>\<open>typing._GenericAlias\<close> at the addresses 0 to 6;
  the metaclass \<^verbatim>\<open>EnumMeta\<close> at 7 and the class \<^verbatim>\<open>Color\<close>, whose type is \<^verbatim>\<open>EnumMeta\<close>,
  at 8; an \<^verbatim>\<open>int\<close>, a \<^verbatim>\<open>str\<close>, a \<^verbatim>\<open>bool\<close>, the generic alias \<^verbatim>\<open>List[int]\<close> and a
  \<^verbatim>\<open>Color\<close> at 20 to 24; and the functions
  \<^verbatim>\<open>
  def f(x: int, y: str): ...         # object 10, code 100
  def g(a: "int", b: int): ...       # object 11, code 101
  def h(x: int) -> int: ...          # object 12, code 102
  def k(x): ...                      # object 13, code 103, func_annotations is NULL
  def m(x): ...                      # object 14, code 104, __annotations__ = {}
  def p(n: int, xs: List[int]): ...  # object 15, code 105
  def q(c: Color): ...               # object 16, code 106
  def r(x: int): ...                 # object 17, code 107
  r2 = types.FunctionType(r.__code__, globals())
                                     # object 41, code 107, func_annotations is NULL
  \<close>
  Each code object is referred to by a frame (object 30) and by its functions; the code
  object 200 is referred to by the frame only.
\<close>

definition example_heap :: "ref \<Rightarrow> pyobject" where
  "example_heap r =
     (if r = 0 then Type_object 0 ''type'' (Some 2)
      else if r = 1 then Type_object 0 ''function'' (Some 2)
      else if r = 2 then Type_object 0 ''object'' None
      else if r = 3 then Type_object 0 ''int'' (Some 2)
      else if r = 4 then Type_object 0 ''str'' (Some 2)
      else if r = 5 then Type_object 0 ''bool'' (Some 3)
      else if r = 6 then Type_object 0 ''_GenericAlias'' (Some 2)
      else if r = 7 then Type_object 0 ''EnumMeta'' (Some 0)
      else if r = 8 then Type_object 7 ''Color'' (Some 2)
      else if r = 10 then Function_object 1 100 (Some [(''x'', 3), (''y'', 4)])
      else if r = 11 then Function_object 1 101 (Some [(''a'', 21), (''b'', 3)])
      else if r = 12 then Function_object 1 102 (Some [(''x'', 3), (''return'', 3)])
      else if r = 13 then Function_object 1 103 None
      else if r = 14 then Function_object 1 104 (Some [])
      else if r = 15 then Function_object 1 105 (Some [(''n'', 3), (''xs'', 23)])
      else if r = 16 then Function_object 1 106 (Some [(''c'', 8)])
      else if r = 17 then Function_object 1 107 (Some [(''x'', 3)])
      else if r = 41 then Function_object 1 107 None
      else if r = 20 then Other_object 3
      else if r = 21 then Other_object 4
      else if r = 22 then Other_object 5
      else if r = 23 then Other_object 6
      else if r = 24 then Other_object 8
      else Other_object 2)"

definition example_referrers :: "ref \<Rightarrow> ref list option" where
  "example_referrers c =
     (if c = 100 then Some [30, 10]
      else if c = 101 then Some [30, 11]
      else if c = 102 then Some [30, 12]
      else if c = 103 then Some [30, 13]
      else if c = 104 then Some [30, 14]
      else if c = 105 then Some [30, 15]
      else if c = 106 then Some [30, 16]
      else if c = 107 then Some [30, 17, 41]
      else Some [30])"

definition example_env :: host_env where
  "example_env = \<lparr>assertions_enabled = True, gc_lookup_ok = True, tuple_pack_ok = True,
     referrers_of = example_referrers, mapping_items_ok = True, get_iter_ok = True\<rparr>"

text \<open>The state of a fresh process, and the states after one and after two calls of
  \<open>prac_enable\<close>.\<close>

definition example_state :: pystate where
  "example_state = \<lparr>heap = example_heap, ob_refcnt = (\<lambda>ob. 1), curexc = None,
     co_extra = (\<lambda>code idx. NULL), co_extra_user_count = 0,
     co_extra_freefuncs = (\<lambda>idx. None), eval_frame = [PyEval_EvalFrameDefault],
     extra_idx = 0, gc_get_referrers = False, resolver_calls = (\<lambda>code. 0)\<rparr>"

definition enabled_state :: pystate where
  "enabled_state = example_state\<lparr>co_extra_user_count := 1,
     co_extra_freefuncs := (\<lambda>idx. None)(0 \<mapsto> Prac_code_freefunc),
     eval_frame := [Prac_eval_frame]\<rparr>"

definition enabled_twice_state :: pystate where
  "enabled_twice_state = enabled_state\<lparr>co_extra_user_count := 2,
     co_extra_freefuncs := (\<lambda>idx. None)(0 \<mapsto> Prac_code_freefunc, 1 \<mapsto> Prac_code_freefunc),
     extra_idx := 1\<rparr>"

section \<open>Lemmas about the loops and the state\<close>

lemmas example_defs = example_heap_def example_referrers_def example_env_def example_state_def
  enabled_state_def PyType_Type_def PyFunction_Type_def Py_TYPE_def Py_IS_TYPE_def
  PyType_CheckExact_def PyFunction_Check_def

subsection \<open>The name lookup\<close>

lemma varnames_loop_ge: "n \<le> varnames_loop names key n"
  by (induction names arbitrary: n) (auto intro: Suc_leD)

lemma varnames_loop_found:
  "map_of (zip names locals) key = Some v \<Longrightarrow>
     varnames_loop names key n - n < length names \<and>
     varnames_loop names key n - n < length locals \<and>
     locals ! (varnames_loop names key n - n) = v"
proof (induction names arbitrary: locals n)
  case Nil
  then show ?case by simp
next
  case (Cons name names)
  then obtain l ls where locals: "locals = l # ls"
    by (cases locals) auto
  show ?case
  proof (cases "name = key")
    case True
    with Cons.prems locals show ?thesis by simp
  next
    case False
    with Cons.prems locals have "map_of (zip names ls) key = Some v" by simp
    from Cons.IH [OF this, of "Suc n"] varnames_loop_ge [of "Suc n" names key]
    show ?thesis using False locals by (auto simp: Suc_diff_le nth_Cons')
  qed
qed

lemma varnames_loop_missing:
  "key \<notin> set names \<Longrightarrow> varnames_loop names key n = n + length names"
  by (induction names arbitrary: n) auto

lemma local_of_slot:
  assumes "local_of code f key = Some v"
  shows "varnames_loop (co_varnames code) key 0 < length (co_varnames code)"
    and "varnames_loop (co_varnames code) key 0 < length (f_localsplus f)"
    and "f_localsplus f ! varnames_loop (co_varnames code) key 0 = v"
  using varnames_loop_found [of "co_varnames code" "f_localsplus f" key v 0] assms
  by (simp_all add: local_of_def)

subsection \<open>One item of the contract table\<close>

lemma items_loop_satisfied:
  "contract_satisfied (heap s) code f item \<Longrightarrow>
     items_loop env code f (item # items) s = items_loop env code f items s"
proof -
  assume sat: "contract_satisfied (heap s) code f item"
  obtain key val where item: "item = (key, val)" by (cases item)
  from sat item obtain arg where
    exact: "PyType_CheckExact (heap s) val" and
    loc: "local_of code f key = Some (Some arg)" and
    same: "Py_TYPE (heap s) arg = val"
    by (auto simp: contract_satisfied_def split: option.splits)
  from local_of_slot [OF loc] exact same item show ?thesis
    by (simp add: Py_IS_TYPE_def)
qed

lemma items_loop_prefix:
  "\<forall>item \<in> set passed. contract_satisfied (heap s) code f item \<Longrightarrow>
     items_loop env code f (passed @ items) s = items_loop env code f items s"
  by (induction passed) (simp_all add: items_loop_satisfied)

lemma items_loop_violated:
  assumes "PyType_CheckExact (heap s) expected"
    and "local_of code f key = Some (Some arg)"
    and "Py_TYPE (heap s) arg \<noteq> expected"
  shows "items_loop env code f ((key, expected) # items) s =
           Inr (True, PyErr_Format PyExc_TypeError
                  (prac_message (tp_name (heap s expected))
                     (tp_name (heap s (Py_TYPE (heap s) arg))) key) s)"
  using local_of_slot [OF assms(2)] assms(1,3) by (simp add: Py_IS_TYPE_def)

lemma items_loop_unknown_name:
  assumes "key \<notin> set (co_varnames code)"
  shows "items_loop env code f ((key, val) # items) s =
           (if assertions_enabled env then Inl Assertion_failed
            else if \<not> length (co_varnames code) < length (f_localsplus f)
            then Inl Out_of_bounds_read
            else if \<not> PyType_CheckExact (heap s) val
            then Inl (Aborted (type_expected_message (tp_name (heap s (Py_TYPE (heap s) val)))))
            else (case f_localsplus f ! length (co_varnames code) of
                    None \<Rightarrow> Inl Null_dereference
                  | Some arg \<Rightarrow>
                      if Py_TYPE (heap s) arg \<noteq> val
                      then Inr (True,
                             PyErr_Format PyExc_TypeError
                               (prac_message (tp_name (heap s val))
                                  (tp_name (heap s (Py_TYPE (heap s) arg))) key) s)
                      else items_loop env code f items s))"
  using assms by (auto simp: varnames_loop_missing Py_IS_TYPE_def split: option.splits)

lemma items_loop_not_a_type:
  assumes "local_of code f key = Some slot"
    and "\<not> PyType_CheckExact (heap s) val"
  shows "items_loop env code f ((key, val) # items) s =
           Inl (Aborted (type_expected_message (tp_name (heap s (Py_TYPE (heap s) val)))))"
  using local_of_slot [OF assms(1)] assms(2) by simp

lemma mismatch_iff:
  "mismatch h code f item \<longleftrightarrow>
     (\<exists>arg. local_of code f (fst item) = Some (Some arg) \<and> Py_TYPE h arg \<noteq> snd item)"
  by (simp add: mismatch_def split: option.splits)

lemma items_loop_identity:
  assumes "\<forall>item \<in> set items. supported (heap s) code f item"
  shows "\<exists>s'. items_loop env code f items s =
           Inr (\<exists>item \<in> set items. mismatch (heap s) code f item, s')"
  using assms
proof (induction items)
  case Nil
  then show ?case by simp
next
  case (Cons item items)
  obtain key expected where item: "item = (key, expected)" by (cases item)
  from Cons.prems item obtain arg where
    exact: "PyType_CheckExact (heap s) expected" and
    loc: "local_of code f key = Some (Some arg)"
    by (auto simp: supported_def split: option.splits)
  show ?case
  proof (cases "Py_TYPE (heap s) arg = expected")
    case True
    with exact loc item have "contract_satisfied (heap s) code f item"
      by (simp add: contract_satisfied_def)
    from items_loop_satisfied [OF this] Cons True loc item show ?thesis
      by (simp add: mismatch_def)
  next
    case False
    from items_loop_violated [OF exact loc False] False loc item show ?thesis
      by (simp add: mismatch_def)
  qed
qed

subsection \<open>What a call changes in the state\<close>

lemma items_loop_state:
  "items_loop env code f items s = Inr (ret, s') \<Longrightarrow> \<exists>e. s' = s\<lparr>curexc := e\<rparr>"
proof (induction items)
  case Nil
  then have "s' = s\<lparr>curexc := curexc s\<rparr>" by simp
  then show ?case by blast
next
  case (Cons item items)
  obtain key val where item: "item = (key, val)" by (cases item)
  show ?case
  proof (cases "items_loop env code f (item # items) s = items_loop env code f items s")
    case True
    with Cons show ?thesis by simp
  next
    case False
    with Cons.prems item show ?thesis
      by (auto simp: Let_def PyErr_Format_def split: if_splits option.splits)
  qed
qed

lemma do_type_checking_state:
  "do_type_checking env func code f s = Inr (ret, s') \<Longrightarrow> \<exists>e. s' = s\<lparr>curexc := e\<rparr>"
proof (cases "func_annotations (heap s func)")
  case None
  assume "do_type_checking env func code f s = Inr (ret, s')"
  with None have "s' = s\<lparr>curexc := curexc s\<rparr>" by (simp add: do_type_checking_def)
  then show ?thesis by blast
next
  case (Some items)
  assume "do_type_checking env func code f s = Inr (ret, s')"
  with Some show ?thesis
    by (auto simp: do_type_checking_def PyErr_Clear_def dest: items_loop_state split: if_splits)
qed

lemma check_then_eval_state:
  "check_then_eval env tstate f exc func s = Inr (r, s') \<Longrightarrow> \<exists>e. s' = s\<lparr>curexc := e\<rparr>"
  by (auto simp: check_then_eval_def dest: do_type_checking_state split: sum.splits if_splits)

lemma referrers_loop_keeps:
  "referrers_loop referrers s = (r, s') \<Longrightarrow>
     heap s' = heap s \<and> curexc s' = curexc s \<and> extra_idx s' = extra_idx s \<and>
     co_extra s' = co_extra s \<and> resolver_calls s' = resolver_calls s \<and>
     gc_get_referrers s' = gc_get_referrers s"
  by (induction referrers) (auto simp: Py_INCREF_def split: if_splits)

lemma referrers_loop_refcnt:
  "referrers_loop referrers s = (func, s') \<Longrightarrow>
     ob_refcnt s' = (case func of None \<Rightarrow> ob_refcnt s
                     | Some fn \<Rightarrow> (ob_refcnt s)(fn := ob_refcnt s fn + 1))"
  by (induction referrers) (auto simp: Py_INCREF_def split: if_splits)


lemma get_function_for_code_state:
  assumes "get_function_for_code env code s = Inr (func, s')"
  shows "heap s' = heap s" and "extra_idx s' = extra_idx s" and "co_extra s' = co_extra s"
    and "resolver_calls s' = (resolver_calls s)(co_addr code := resolver_calls s (co_addr code) + 1)"
    and "ob_refcnt s' = (case func of None \<Rightarrow> ob_refcnt s
                         | Some fn \<Rightarrow> (ob_refcnt s)(fn := ob_refcnt s fn + 1))"
  using assms
  by (auto simp: get_function_for_code_def Let_def PyErr_Clear_def
      dest: referrers_loop_keeps referrers_loop_refcnt split: if_splits option.splits)

lemma resolves_to_check:
  assumes "resolves_to env f s fn"
  shows "\<exists>s2. heap s2 = heap s \<and> curexc s2 = curexc s \<and>
           prac_eval_frame env tstate f exc s = check_then_eval env tstate f exc fn s2"
proof (cases "co_extra s (co_addr (f_code f)) (extra_idx s)")
  case NULL
  with assms obtain s1 where
    res: "get_function_for_code env (f_code f) s = Inr (Some fn, s1)"
    by (auto simp: resolves_to_def split: sum.splits option.splits)
  then have "heap s1 = heap s \<and> curexc s1 = curexc s \<and> extra_idx s1 = extra_idx s"
    by (auto simp: get_function_for_code_def Let_def referrers_loop_keeps PyErr_Clear_def
        split: if_splits option.splits)
  with NULL res show ?thesis
    by (intro exI [of _ "PyCode_SetExtra (f_code f) (extra_idx s1) (Ptr fn) s1"])
       (simp add: prac_eval_frame_def PyCode_GetExtra_def PyCode_SetExtra_def)
next
  case SENTINEL
  with assms show ?thesis by (simp add: resolves_to_def)
next
  case (Ptr fn')
  with assms show ?thesis
    by (intro exI [of _ s]) (simp add: resolves_to_def prac_eval_frame_def PyCode_GetExtra_def)
qed

lemma prac_eval_frame_first:
  assumes "prac_eval_frame env tstate f exc s = Inr (r, s')"
    and "co_extra s (co_addr (f_code f)) (extra_idx s) = NULL"
  shows "\<exists>func. heap s' = heap s \<and> extra_idx s' = extra_idx s \<and>
           co_extra s' = (co_extra s)(co_addr (f_code f) :=
             (co_extra s (co_addr (f_code f)))(extra_idx s :=
                (case func of Some fn \<Rightarrow> Ptr fn | None \<Rightarrow> SENTINEL))) \<and>
           resolver_calls s' = (resolver_calls s)(co_addr (f_code f) :=
             resolver_calls s (co_addr (f_code f)) + 1) \<and>
           ob_refcnt s' = (case func of None \<Rightarrow> ob_refcnt s
                           | Some fn \<Rightarrow> (ob_refcnt s)(fn := ob_refcnt s fn + 1))"
proof -
  from assms obtain func s1 where
    res: "get_function_for_code env (f_code f) s = Inr (func, s1)"
    by (auto simp: prac_eval_frame_def PyCode_GetExtra_def split: sum.splits)
  note s1 = get_function_for_code_state [OF res]
  let ?s2 = "PyCode_SetExtra (f_code f) (extra_idx s1)
               (case func of Some fn \<Rightarrow> Ptr fn | None \<Rightarrow> SENTINEL) s1"
  from assms res have "\<exists>e. s' = ?s2\<lparr>curexc := e\<rparr>"
  proof (cases func)
    case None
    with assms res have "s' = ?s2\<lparr>curexc := curexc ?s2\<rparr>"
      by (simp add: prac_eval_frame_def PyCode_GetExtra_def)
    then show ?thesis by blast
  next
    case (Some fn)
    with assms res have "check_then_eval env tstate f exc fn ?s2 = Inr (r, s')"
      by (simp add: prac_eval_frame_def PyCode_GetExtra_def)
    then show ?thesis by (rule check_then_eval_state)
  qed
  then obtain e where "s' = ?s2\<lparr>curexc := e\<rparr>" ..
  with s1 show ?thesis
    by (intro exI [of _ func]) (simp add: PyCode_SetExtra_def)
qed

lemma prac_eval_frame_later:
  assumes "prac_eval_frame env tstate f exc s = Inr (r, s')"
    and "co_extra s (co_addr (f_code f)) (extra_idx s) \<noteq> NULL"
  shows "\<exists>e. s' = s\<lparr>curexc := e\<rparr>"
proof (cases "co_extra s (co_addr (f_code f)) (extra_idx s)")
  case NULL
  with assms(2) show ?thesis by simp
next
  case SENTINEL
  with assms(1) have "s' = s\<lparr>curexc := curexc s\<rparr>"
    by (simp add: prac_eval_frame_def PyCode_GetExtra_def)
  then show ?thesis by blast
next
  case (Ptr fn)
  with assms(1) have "check_then_eval env tstate f exc fn s = Inr (r, s')"
    by (simp add: prac_eval_frame_def PyCode_GetExtra_def)
  then show ?thesis by (rule check_then_eval_state)
qed

lemma prac_eval_frame_step:
  assumes "prac_eval_frame env tstate f exc s = Inr (r, s')"
  shows "extra_idx s' = extra_idx s"
    and "cache_slot s (co_addr (f_code f)) = NULL \<Longrightarrow>
           cache_slot s' (co_addr (f_code f)) \<noteq> NULL \<and>
           resolver_calls s' (co_addr (f_code f)) = resolver_calls s (co_addr (f_code f)) + 1"
    and "c \<noteq> co_addr (f_code f) \<or> cache_slot s c \<noteq> NULL \<Longrightarrow>
           cache_slot s' c = cache_slot s c \<and> resolver_calls s' c = resolver_calls s c"
proof -
  show "extra_idx s' = extra_idx s"
  proof (cases "co_extra s (co_addr (f_code f)) (extra_idx s) = NULL")
    case True
    from prac_eval_frame_first [OF assms True] show ?thesis by blast
  next
    case False
    from prac_eval_frame_later [OF assms False] show ?thesis by auto
  qed
  show "cache_slot s' (co_addr (f_code f)) \<noteq> NULL \<and>
        resolver_calls s' (co_addr (f_code f)) = resolver_calls s (co_addr (f_code f)) + 1"
    if "cache_slot s (co_addr (f_code f)) = NULL"
  proof -
    from that have unset: "co_extra s (co_addr (f_code f)) (extra_idx s) = NULL"
      by (simp add: cache_slot_def)
    from prac_eval_frame_first [OF assms unset] obtain func where
      "extra_idx s' = extra_idx s"
      "co_extra s' = (co_extra s)(co_addr (f_code f) :=
             (co_extra s (co_addr (f_code f)))(extra_idx s :=
                (case func of Some fn \<Rightarrow> Ptr fn | None \<Rightarrow> SENTINEL)))"
      "resolver_calls s' = (resolver_calls s)(co_addr (f_code f) :=
             resolver_calls s (co_addr (f_code f)) + 1)"
      by blast
    then show ?thesis
      by (cases func) (simp_all add: cache_slot_def)
  qed
  show "cache_slot s' c = cache_slot s c \<and> resolver_calls s' c = resolver_calls s c"
    if "c \<noteq> co_addr (f_code f) \<or> cache_slot s c \<noteq> NULL"
  proof (cases "co_extra s (co_addr (f_code f)) (extra_idx s) = NULL")
    case True
    with that have other: "c \<noteq> co_addr (f_code f)"
      by (auto simp: cache_slot_def)
    from prac_eval_frame_first [OF assms True] obtain func where
      "extra_idx s' = extra_idx s"
      "co_extra s' = (co_extra s)(co_addr (f_code f) :=
             (co_extra s (co_addr (f_code f)))(extra_idx s :=
                (case func of Some fn \<Rightarrow> Ptr fn | None \<Rightarrow> SENTINEL)))"
      "resolver_calls s' = (resolver_calls s)(co_addr (f_code f) :=
             resolver_calls s (co_addr (f_code f)) + 1)"
      by blast
    with other show ?thesis
      by (simp add: cache_slot_def)
  next
    case False
    from prac_eval_frame_later [OF assms False] show ?thesis
      by (auto simp: cache_slot_def)
  qed
qed

lemma run_cache:
  assumes "cache_inv s" and "run events s = Inr s'"
    and "\<forall>ev \<in> set events. \<not> enables ev"
  shows "extra_idx s' = extra_idx s \<and> cache_inv s' \<and>
         (\<forall>c. cache_slot s c \<noteq> NULL \<longrightarrow>
            cache_slot s' c = cache_slot s c \<and> resolver_calls s' c = resolver_calls s c) \<and>
         (\<forall>env tstate f exc. Intercept env tstate f exc \<in> set events \<longrightarrow>
            cache_slot s' (co_addr (f_code f)) \<noteq> NULL)"
  using assms
proof (induction events arbitrary: s)
  case Nil
  then show ?case by simp
next
  case (Cons ev events)
  from Cons.prems(3) have here: "\<not> enables ev"
    and noen: "\<forall>ev \<in> set events. \<not> enables ev"
    by simp_all
  show ?case
  proof (cases ev)
    case (Intercept env tstate f exc)
    with Cons.prems obtain r s1 where
      step: "prac_eval_frame env tstate f exc s = Inr (r, s1)" and
      rest: "run events s1 = Inr s'"
      by (auto split: sum.splits)
    note st = prac_eval_frame_step [OF step]
    have inv1: "cache_inv s1"
      unfolding cache_inv_def
    proof
      fix c
      show "resolver_calls s1 c = (if cache_slot s1 c = NULL then 0 else 1)"
      proof (cases "c = co_addr (f_code f) \<and> cache_slot s c = NULL")
        case True
        with st(2) Cons.prems(1) show ?thesis by (auto simp: cache_inv_def)
      next
        case False
        then have "c \<noteq> co_addr (f_code f) \<or> cache_slot s c \<noteq> NULL" by blast
        from st(3) [OF this] Cons.prems(1) show ?thesis by (simp add: cache_inv_def)
      qed
    qed
    have now: "cache_slot s1 (co_addr (f_code f)) \<noteq> NULL"
    proof (cases "cache_slot s (co_addr (f_code f)) = NULL")
      case True
      with st(2) show ?thesis by simp
    next
      case False
      with st(3) [of "co_addr (f_code f)"] show ?thesis by simp
    qed
    from Cons.IH [OF inv1 rest noen] have
      ih: "extra_idx s' = extra_idx s1" "cache_inv s'"
        "\<And>c. cache_slot s1 c \<noteq> NULL \<Longrightarrow>
           cache_slot s' c = cache_slot s1 c \<and> resolver_calls s' c = resolver_calls s1 c"
        "\<And>env tstate f exc. Intercept env tstate f exc \<in> set events \<Longrightarrow>
            cache_slot s' (co_addr (f_code f)) \<noteq> NULL"
      by blast+
    have keep: "cache_slot s' c = cache_slot s c \<and> resolver_calls s' c = resolver_calls s c"
      if "cache_slot s c \<noteq> NULL" for c
    proof -
      from that st(3) [of c] have "cache_slot s1 c = cache_slot s c"
        "resolver_calls s1 c = resolver_calls s c" by simp_all
      with ih(3) [of c] that show ?thesis by simp
    qed
    from ih(1) st(1) ih(2) keep ih(4) ih(3) [OF now] now Intercept show ?thesis
      by auto
  next
    case (Host_mutation h rc e)
    let ?s1 = "s\<lparr>heap := h, ob_refcnt := rc, curexc := e\<rparr>"
    from Cons.prems Host_mutation have rest: "run events ?s1 = Inr s'" by simp
    from Cons.prems(1) have "cache_inv ?s1"
      by (simp add: cache_inv_def cache_slot_def)
    from Cons.IH [OF this rest noen] Host_mutation show ?thesis
      by (clarsimp simp: cache_slot_def)
  next
    case (Enable env)
    with here show ?thesis by simp
  qed
qed

lemma referrers_loop_tables:
  "referrers_loop referrers s = (r, s') \<Longrightarrow>
     co_extra_freefuncs s' = co_extra_freefuncs s \<and>
     co_extra_user_count s' = co_extra_user_count s"
  by (induction referrers) (auto simp: Py_INCREF_def split: if_splits)

lemma get_function_for_code_tables:
  assumes "get_function_for_code env code s = Inr (func, s')"
  shows "co_extra_freefuncs s' = co_extra_freefuncs s"
    and "co_extra_user_count s' = co_extra_user_count s"
  using assms
  by (auto simp: get_function_for_code_def Let_def PyErr_Clear_def
      dest: referrers_loop_tables split: if_splits option.splits)

lemma prac_eval_frame_tables:
  assumes "prac_eval_frame env tstate f exc s = Inr (r, s')"
  shows "co_extra_freefuncs s' = co_extra_freefuncs s \<and>
         co_extra_user_count s' = co_extra_user_count s"
proof (cases "co_extra s (co_addr (f_code f)) (extra_idx s) = NULL")
  case False
  from prac_eval_frame_later [OF assms False] show ?thesis by auto
next
  case True
  with assms obtain func s1 where
    res: "get_function_for_code env (f_code f) s = Inr (func, s1)"
    by (auto simp: prac_eval_frame_def PyCode_GetExtra_def split: sum.splits)
  note s1 = get_function_for_code_tables [OF res]
  let ?s2 = "PyCode_SetExtra (f_code f) (extra_idx s1)
               (case func of Some fn \<Rightarrow> Ptr fn | None \<Rightarrow> SENTINEL) s1"
  have "\<exists>e. s' = ?s2\<lparr>curexc := e\<rparr>"
  proof (cases func)
    case None
    with assms res True have "s' = ?s2\<lparr>curexc := curexc ?s2\<rparr>"
      by (simp add: prac_eval_frame_def PyCode_GetExtra_def)
    then show ?thesis by blast
  next
    case (Some fn)
    with assms res True have "check_then_eval env tstate f exc fn ?s2 = Inr (r, s')"
      by (simp add: prac_eval_frame_def PyCode_GetExtra_def)
    then show ?thesis by (rule check_then_eval_state)
  qed
  then obtain e where "s' = ?s2\<lparr>curexc := e\<rparr>" ..
  with s1 show ?thesis
    by (simp add: PyCode_SetExtra_def)
qed

lemma get_function_for_code_curexc:
  assumes "get_function_for_code env code s = Inr (func, s')"
  shows "curexc s' = curexc s \<or> curexc s' = None"
  using assms
  by (auto simp: get_function_for_code_def Let_def PyErr_Clear_def
      dest: referrers_loop_keeps split: if_splits option.splits)

lemma prac_enable_state:
  assumes "prac_enable env s = Inr (ok, s')"
  shows "co_extra s' = co_extra s" and "resolver_calls s' = resolver_calls s"
  using assms
  by (auto simp: prac_enable_def PyEval_RequestCodeExtraIndex_def PyErr_Format_def Let_def
      split: if_splits sum.splits)

lemma prac_eval_frame_slot_stable:
  assumes "prac_eval_frame env tstate f exc s = Inr (r, s')"
    and "co_extra s c idx \<noteq> NULL"
  shows "co_extra s' c idx = co_extra s c idx"
proof (cases "co_extra s (co_addr (f_code f)) (extra_idx s) = NULL")
  case True
  from prac_eval_frame_first [OF assms(1) True] obtain func where
    "co_extra s' = (co_extra s)(co_addr (f_code f) :=
       (co_extra s (co_addr (f_code f)))(extra_idx s :=
          (case func of Some fn \<Rightarrow> Ptr fn | None \<Rightarrow> SENTINEL)))"
    by blast
  with True assms(2) show ?thesis
    by (cases "c = co_addr (f_code f) \<and> idx = extra_idx s") auto
next
  case False
  from prac_eval_frame_later [OF assms(1) False] show ?thesis by auto
qed

lemma run_slot_stable:
  "run events s = Inr s' \<Longrightarrow> co_extra s c idx \<noteq> NULL \<Longrightarrow>
     co_extra s' c idx = co_extra s c idx"
proof (induction events arbitrary: s)
  case Nil
  then show ?case by simp
next
  case (Cons ev events)
  show ?case
  proof (cases ev)
    case (Intercept env tstate f exc)
    with Cons.prems(1) obtain r s1 where
      step: "prac_eval_frame env tstate f exc s = Inr (r, s1)" and
      rest: "run events s1 = Inr s'"
      by (auto split: sum.splits)
    from prac_eval_frame_slot_stable [OF step Cons.prems(2)]
    have same: "co_extra s1 c idx = co_extra s c idx" .
    with Cons.prems(2) have "co_extra s1 c idx \<noteq> NULL" by simp
    from Cons.IH [OF rest this] same show ?thesis by simp
  next
    case (Host_mutation h rc e)
    let ?s1 = "s\<lparr>heap := h, ob_refcnt := rc, curexc := e\<rparr>"
    from Cons.prems(1) Host_mutation have rest: "run events ?s1 = Inr s'" by simp
    from Cons.prems(2) have "co_extra ?s1 c idx \<noteq> NULL" by simp
    from Cons.IH [OF rest this] show ?thesis by simp
  next
    case (Enable env)
    with Cons.prems(1) obtain ok s1 where
      step: "prac_enable env s = Inr (ok, s1)" and
      rest: "run events s1 = Inr s'"
      by (auto split: sum.splits)
    from prac_enable_state(1) [OF step] have same: "co_extra s1 = co_extra s" .
    with Cons.prems(2) have "co_extra s1 c idx \<noteq> NULL" by simp
    from Cons.IH [OF rest this] same show ?thesis by simp
  qed
qed

subsection \<open>The destruction of a code object\<close>

lemma extras_loop_state:
  "\<exists>rc. extras_loop i c s = s\<lparr>ob_refcnt := rc\<rparr>"
proof (induction i)
  case 0
  have "extras_loop 0 c s = s\<lparr>ob_refcnt := ob_refcnt s\<rparr>" by simp
  then show ?case by blast
next
  case (Suc i)
  then obtain rc where loop: "extras_loop i c s = s\<lparr>ob_refcnt := rc\<rparr>" ..
  show ?case
  proof (cases "co_extra_freefuncs s i")
    case None
    with loop have "extras_loop (Suc i) c s = s\<lparr>ob_refcnt := rc\<rparr>" by simp
    then show ?thesis by blast
  next
    case (Some free_extra)
    show ?thesis
    proof (cases "co_extra s c i")
      case (Ptr ob)
      with Some loop have
        "extras_loop (Suc i) c s = s\<lparr>ob_refcnt := rc(ob := rc ob - 1)\<rparr>"
        by (cases free_extra)
          (simp add: call_freefunc_def prac_code_freefunc_def Py_DECREF_def)
      then show ?thesis by blast
    next
      case NULL
      with Some loop have "extras_loop (Suc i) c s = s\<lparr>ob_refcnt := rc\<rparr>"
        by (cases free_extra) (simp add: call_freefunc_def prac_code_freefunc_def)
      then show ?thesis by blast
    next
      case SENTINEL
      with Some loop have "extras_loop (Suc i) c s = s\<lparr>ob_refcnt := rc\<rparr>"
        by (cases free_extra) (simp add: call_freefunc_def prac_code_freefunc_def)
      then show ?thesis by blast
    qed
  qed
qed

lemma extras_loop_step:
  "ob_refcnt (extras_loop (Suc i) c s) =
     (case co_extra_freefuncs s i of
        None \<Rightarrow> ob_refcnt (extras_loop i c s)
      | Some free_extra \<Rightarrow>
          (case co_extra s c i of
             Ptr ob \<Rightarrow> (ob_refcnt (extras_loop i c s))
                         (ob := ob_refcnt (extras_loop i c s) ob - 1)
           | _ \<Rightarrow> ob_refcnt (extras_loop i c s)))"
proof -
  from extras_loop_state [of i c s] obtain rc where
    loop: "extras_loop i c s = s\<lparr>ob_refcnt := rc\<rparr>" ..
  show ?thesis
  proof (cases "co_extra_freefuncs s i")
    case None
    with loop show ?thesis by simp
  next
    case (Some free_extra)
    with loop show ?thesis
      by (cases free_extra; cases "co_extra s c i")
        (simp_all add: call_freefunc_def prac_code_freefunc_def Py_DECREF_def)
  qed
qed

lemma extras_loop_cong:
  assumes "co_extra_freefuncs s' = co_extra_freefuncs s"
    and "co_extra s' c = co_extra s c"
    and "ob_refcnt s' = ob_refcnt s"
  shows "ob_refcnt (extras_loop i c s') = ob_refcnt (extras_loop i c s)"
proof (induction i)
  case 0
  with assms(3) show ?case by simp
next
  case (Suc i)
  with assms(1,2) show ?case
    by (simp only: extras_loop_step)
qed

lemma extras_loop_unused:
  "\<forall>j < i. co_extra s c j = NULL \<Longrightarrow> ob_refcnt (extras_loop i c s) = ob_refcnt s"
proof (induction i)
  case 0
  then show ?case by simp
next
  case (Suc i)
  then have "ob_refcnt (extras_loop i c s) = ob_refcnt s" and "co_extra s c i = NULL"
    by simp_all
  then show ?case
    by (simp only: extras_loop_step) (simp split: option.splits)
qed

lemma extras_loop_one_slot:
  assumes "\<forall>j. j \<noteq> k \<longrightarrow> co_extra s c j = NULL"
    and "co_extra_freefuncs s k = Some Prac_code_freefunc"
  shows "ob_refcnt (extras_loop i c s) =
           (if k < i then ob_refcnt (prac_code_freefunc (co_extra s c k) s) else ob_refcnt s)"
proof (induction i)
  case 0
  then show ?case by simp
next
  case (Suc i)
  show ?case
  proof (cases "i = k")
    case True
    with Suc assms(2) show ?thesis
      by (simp only: extras_loop_step)
        (cases "co_extra s c k"; simp add: prac_code_freefunc_def Py_DECREF_def)
  next
    case False
    with assms(1) have "co_extra s c i = NULL" by simp
    with Suc False show ?thesis
      by (simp only: extras_loop_step) (auto split: option.splits)
  qed
qed

lemma extras_loop_balance:
  assumes "co_extra_freefuncs s' = co_extra_freefuncs s"
    and "co_extra s' c = (co_extra s c)(k := (case func of Some fn \<Rightarrow> Ptr fn | None \<Rightarrow> SENTINEL))"
    and "co_extra s c k = NULL"
    and "ob_refcnt s' = (case func of None \<Rightarrow> ob_refcnt s
                         | Some fn \<Rightarrow> (ob_refcnt s)(fn := ob_refcnt s fn + 1))"
    and "co_extra_freefuncs s k = Some Prac_code_freefunc"
  shows "ob_refcnt (extras_loop i c s') =
           (if k < i then ob_refcnt (extras_loop i c s)
            else (case func of None \<Rightarrow> ob_refcnt (extras_loop i c s)
                  | Some fn \<Rightarrow> (ob_refcnt (extras_loop i c s))
                                 (fn := ob_refcnt (extras_loop i c s) fn + 1)))"
proof (induction i)
  case 0
  with assms(4) show ?case by (cases func) simp_all
next
  case (Suc i)
  show ?case
  proof (cases "i = k")
    case True
    with Suc assms show ?thesis
      by (simp only: extras_loop_step) (cases func; simp)
  next
    case False
    with assms(2) have same: "co_extra s' c i = co_extra s c i" by simp
    show ?thesis
    proof (cases "k < i")
      case True
      with Suc same assms(1) show ?thesis
        by (simp only: extras_loop_step) simp
    next
      case False
      with \<open>i \<noteq> k\<close> have "\<not> k < Suc i" by simp
      with Suc False same assms(1) show ?thesis
        by (simp only: extras_loop_step)
          (cases func; cases "co_extra_freefuncs s i"; cases "co_extra s c i";
            auto simp: fun_eq_iff)
    qed
  qed
qed

subsection \<open>The loop over the interpreters, and the two abort messages\<close>

lemma interp_loop_default:
  "\<forall>func \<in> set interps. func = PyEval_EvalFrameDefault \<Longrightarrow>
     interp_loop env interps = Inr (replicate (length interps) Prac_eval_frame)"
  by (induction interps) simp_all

lemma interp_loop_assert:
  "assertions_enabled env \<Longrightarrow> \<exists>func \<in> set interps. func \<noteq> PyEval_EvalFrameDefault \<Longrightarrow>
     interp_loop env interps = Inl Assertion_failed"
  by (induction interps) auto

lemma interp_loop_env:
  "assertions_enabled env' = assertions_enabled env \<Longrightarrow>
     interp_loop env' interps = interp_loop env interps"
  by (induction interps) simp_all

lemma abort_messages_differ: "type_expected_message name \<noteq> gc_abort_message"
  by (simp add: type_expected_message_def gc_abort_message_def)

lemma items_loop_no_gc_abort:
  "items_loop env code f items s \<noteq> Inl (Aborted gc_abort_message)"
proof (induction items)
  case Nil
  then show ?case by simp
next
  case (Cons item items)
  obtain key val where "item = (key, val)" by (cases item)
  with Cons show ?case
    by (simp add: Let_def abort_messages_differ split: option.splits)
qed

lemma check_then_eval_no_gc_abort:
  "check_then_eval env tstate f exc func s \<noteq> Inl (Aborted gc_abort_message)"
  using items_loop_no_gc_abort [of env "f_code f" f _ s]
  by (auto simp: check_then_eval_def do_type_checking_def split: sum.splits option.splits)

section \<open>The claims\<close>

subsection \<open>C1: a violated contract rejects the call and names the first violation\<close>

text \<open>
  C1, as the program has it. Let the call be checked against the function \<open>fn\<close>, let the
  host list the items of its contract table, and let an entry \<open>(key, expected)\<close> of the
  table be violated by the argument \<open>arg\<close> (the declared value is exactly a type, the name
  is bound to \<open>arg\<close>, and the type of \<open>arg\<close> is another one), every entry before it in
  iteration order being satisfied. Then \<open>prac_eval_frame\<close> returns \<^verbatim>\<open>NULL\<close> without the
  tail call that runs the callee's body, and the error it raises is the \<^verbatim>\<open>TypeError\<close>
  whose message names the expected type, the actual type and the parameter of that
  entry, whatever the entries after it are.
\<close>

theorem first_violation_reported:
  assumes "resolves_to env f s fn"
    and "func_annotations (heap s fn) = Some (passed @ (key, expected) # rest)"
    and "mapping_items_ok env" and "get_iter_ok env"
    and "\<forall>item \<in> set passed. contract_satisfied (heap s) (f_code f) f item"
    and "PyType_CheckExact (heap s) expected"
    and "local_of (f_code f) f key = Some (Some arg)"
    and "Py_TYPE (heap s) arg \<noteq> expected"
  shows "\<exists>s'. prac_eval_frame env tstate f exc s = Inr (Returns_NULL, s') \<and>
           curexc s' = Some (PyExc_TypeError,
             prac_message (tp_name (heap s expected))
               (tp_name (heap s (Py_TYPE (heap s) arg))) key)"
proof -
  from resolves_to_check [OF assms(1)] obtain s2 where
    same: "heap s2 = heap s" and
    run: "prac_eval_frame env tstate f exc s = check_then_eval env tstate f exc fn s2"
    by blast
  from assms(5) same have "\<forall>item \<in> set passed. contract_satisfied (heap s2) (f_code f) f item"
    by simp
  from items_loop_prefix [OF this]
  have "items_loop env (f_code f) f (passed @ (key, expected) # rest) s2 =
          items_loop env (f_code f) f ((key, expected) # rest) s2" .
  also have "\<dots> = Inr (True, PyErr_Format PyExc_TypeError
                  (prac_message (tp_name (heap s2 expected))
                     (tp_name (heap s2 (Py_TYPE (heap s2) arg))) key) s2)"
    using assms(6,7,8) same by (intro items_loop_violated) simp_all
  finally show ?thesis
    using run same assms(2,3,4)
    by (simp add: check_then_eval_def do_type_checking_def PyErr_Format_def)
qed

theorem first_violation_reported_witness:
  "\<exists>s'. prac_eval_frame example_env 0
           \<lparr>f_code = \<lparr>co_addr = 100, co_varnames = [''x'', ''y'']\<rparr>,
            f_localsplus = [Some 20, Some 22]\<rparr> 0 enabled_state = Inr (Returns_NULL, s') \<and>
         curexc s' = Some (PyExc_TypeError, prac_message ''str'' ''bool'' ''y'')"
  using first_violation_reported [of example_env
      "\<lparr>f_code = \<lparr>co_addr = 100, co_varnames = [''x'', ''y'']\<rparr>,
        f_localsplus = [Some 20, Some 22]\<rparr>" enabled_state 10 "[(''x'', 3)]" "''y''" 4 "[]" 22 0 0]
  by (simp add: example_defs resolves_to_def get_function_for_code_def contract_satisfied_def
      local_of_def)

text \<open>
  C1 as it is written speaks of every call with a violated contract. It fails when an
  entry before the violated one is not supported: for \<^verbatim>\<open>g(1, "s")\<close> with
  \<^verbatim>\<open>def g(a: "int", b: int)\<close> the contract of \<open>b\<close> is violated, and the process aborts on
  the entry of \<open>a\<close>; no error is raised.
\<close>

theorem first_violation_counterexample:
  "resolves_to example_env
     \<lparr>f_code = \<lparr>co_addr = 101, co_varnames = [''a'', ''b'']\<rparr>,
      f_localsplus = [Some 20, Some 21]\<rparr> enabled_state 11 \<and>
   func_annotations (heap enabled_state 11) = Some [(''a'', 21), (''b'', 3)] \<and>
   PyType_CheckExact (heap enabled_state) 3 \<and>
   local_of \<lparr>co_addr = 101, co_varnames = [''a'', ''b'']\<rparr>
     \<lparr>f_code = \<lparr>co_addr = 101, co_varnames = [''a'', ''b'']\<rparr>,
      f_localsplus = [Some 20, Some 21]\<rparr> ''b'' = Some (Some 21) \<and>
   Py_TYPE (heap enabled_state) 21 \<noteq> 3 \<and>
   prac_eval_frame example_env 0
     \<lparr>f_code = \<lparr>co_addr = 101, co_varnames = [''a'', ''b'']\<rparr>,
      f_localsplus = [Some 20, Some 21]\<rparr> 0 enabled_state =
     Inl (Aborted (type_expected_message ''str''))"
  by (simp add: example_defs resolves_to_def get_function_for_code_def local_of_def
      prac_eval_frame_def PyCode_GetExtra_def PyCode_SetExtra_def check_then_eval_def
      do_type_checking_def Py_INCREF_def)

subsection \<open>C2: the comparison is exact type identity\<close>

text \<open>
  C2, as the program has it. When checking reaches an entry \<open>(key, expected)\<close> whose
  declared value is exactly a type (an object whose own type is \<^verbatim>\<open>type\<close>) and whose name
  is a local variable bound to a value \<open>arg\<close>, the entry passes, and checking goes on with
  the entries after it, if the type of \<open>arg\<close> is identical to \<open>expected\<close>; otherwise it is a
  violation, reported at once. So, for a contract table all of whose entries are of that
  kind and whose items the host lists, the check passes (\<open>do_type_checking\<close> returns
  \<open>False\<close>) if and only if the type of every argument is identical to the declared type of
  its entry, and it reports a violation (returns \<open>True\<close>) if and only if some argument has
  another type. In particular an argument whose type is a strict subclass of the declared
  type makes the check report a violation.
\<close>

theorem exact_type_identity:
  "(PyType_CheckExact (heap s) expected \<and> local_of code f key = Some (Some arg) \<longrightarrow>
      items_loop env code f ((key, expected) # rest) s =
        (if Py_TYPE (heap s) arg = expected then items_loop env code f rest s
         else Inr (True, PyErr_Format PyExc_TypeError
                    (prac_message (tp_name (heap s expected))
                       (tp_name (heap s (Py_TYPE (heap s) arg))) key) s))) \<and>
   (func_annotations (heap s func) = Some items \<and> mapping_items_ok env \<and> get_iter_ok env \<and>
    (\<forall>item \<in> set items. supported (heap s) code f item) \<longrightarrow>
      ((\<exists>s'. do_type_checking env func code f s = Inr (False, s')) \<longleftrightarrow>
         (\<forall>(key, expected) \<in> set items. \<forall>arg.
            local_of code f key = Some (Some arg) \<longrightarrow> Py_TYPE (heap s) arg = expected)) \<and>
      ((\<exists>s'. do_type_checking env func code f s = Inr (True, s')) \<longleftrightarrow>
         (\<exists>(key, expected) \<in> set items. \<exists>arg.
            local_of code f key = Some (Some arg) \<and> Py_TYPE (heap s) arg \<noteq> expected)) \<and>
      (\<forall>(key, expected) \<in> set items. \<forall>arg n.
         local_of code f key = Some (Some arg) \<and> Py_TYPE (heap s) arg \<noteq> expected \<and>
         inherits_from n (heap s) (Py_TYPE (heap s) arg) expected \<longrightarrow>
         (\<exists>s'. do_type_checking env func code f s = Inr (True, s'))))"
proof (rule conjI)
  show "PyType_CheckExact (heap s) expected \<and> local_of code f key = Some (Some arg) \<longrightarrow>
      items_loop env code f ((key, expected) # rest) s =
        (if Py_TYPE (heap s) arg = expected then items_loop env code f rest s
         else Inr (True, PyErr_Format PyExc_TypeError
                    (prac_message (tp_name (heap s expected))
                       (tp_name (heap s (Py_TYPE (heap s) arg))) key) s))"
  proof (intro impI, elim conjE)
    assume exact: "PyType_CheckExact (heap s) expected"
      and loc: "local_of code f key = Some (Some arg)"
    show "items_loop env code f ((key, expected) # rest) s =
        (if Py_TYPE (heap s) arg = expected then items_loop env code f rest s
         else Inr (True, PyErr_Format PyExc_TypeError
                    (prac_message (tp_name (heap s expected))
                       (tp_name (heap s (Py_TYPE (heap s) arg))) key) s))"
    proof (cases "Py_TYPE (heap s) arg = expected")
      case True
      with exact loc have "contract_satisfied (heap s) code f (key, expected)"
        by (simp add: contract_satisfied_def)
      from items_loop_satisfied [OF this] True show ?thesis by simp
    next
      case False
      from items_loop_violated [OF exact loc False] False show ?thesis by simp
    qed
  qed
next
  let ?violated = "\<exists>item \<in> set items. mismatch (heap s) code f item"
  have mis: "?violated \<longleftrightarrow>
           (\<exists>(key, expected) \<in> set items. \<exists>arg.
              local_of code f key = Some (Some arg) \<and> Py_TYPE (heap s) arg \<noteq> expected)"
    by (simp add: mismatch_iff case_prod_beta)
  have all: "\<not> ?violated \<longleftrightarrow>
           (\<forall>(key, expected) \<in> set items. \<forall>arg.
              local_of code f key = Some (Some arg) \<longrightarrow> Py_TYPE (heap s) arg = expected)"
    by (simp add: mismatch_iff case_prod_beta)
  show "func_annotations (heap s func) = Some items \<and> mapping_items_ok env \<and> get_iter_ok env \<and>
    (\<forall>item \<in> set items. supported (heap s) code f item) \<longrightarrow>
      ((\<exists>s'. do_type_checking env func code f s = Inr (False, s')) \<longleftrightarrow>
         (\<forall>(key, expected) \<in> set items. \<forall>arg.
            local_of code f key = Some (Some arg) \<longrightarrow> Py_TYPE (heap s) arg = expected)) \<and>
      ((\<exists>s'. do_type_checking env func code f s = Inr (True, s')) \<longleftrightarrow>
         (\<exists>(key, expected) \<in> set items. \<exists>arg.
            local_of code f key = Some (Some arg) \<and> Py_TYPE (heap s) arg \<noteq> expected)) \<and>
      (\<forall>(key, expected) \<in> set items. \<forall>arg n.
         local_of code f key = Some (Some arg) \<and> Py_TYPE (heap s) arg \<noteq> expected \<and>
         inherits_from n (heap s) (Py_TYPE (heap s) arg) expected \<longrightarrow>
         (\<exists>s'. do_type_checking env func code f s = Inr (True, s')))"
  proof
    assume hyps: "func_annotations (heap s func) = Some items \<and> mapping_items_ok env \<and>
      get_iter_ok env \<and> (\<forall>item \<in> set items. supported (heap s) code f item)"
    then have table: "\<forall>item \<in> set items. supported (heap s) code f item"
      by simp
    from items_loop_identity [OF table, of env] obtain s' where
      "items_loop env code f items s = Inr (?violated, s')"
      by blast
    with hyps have res: "do_type_checking env func code f s = Inr (?violated, s')"
      by (simp add: do_type_checking_def)
    have pass: "(\<exists>s'. do_type_checking env func code f s = Inr (False, s')) \<longleftrightarrow> \<not> ?violated"
      unfolding res by simp
    have viol: "(\<exists>s'. do_type_checking env func code f s = Inr (True, s')) \<longleftrightarrow> ?violated"
      unfolding res by simp
    have sub: "\<forall>(key, expected) \<in> set items. \<forall>arg n.
           local_of code f key = Some (Some arg) \<and> Py_TYPE (heap s) arg \<noteq> expected \<and>
           inherits_from n (heap s) (Py_TYPE (heap s) arg) expected \<longrightarrow>
           (\<exists>s'. do_type_checking env func code f s = Inr (True, s'))"
      unfolding viol mis by blast
    from pass viol sub show "((\<exists>s'. do_type_checking env func code f s = Inr (False, s')) \<longleftrightarrow>
         (\<forall>(key, expected) \<in> set items. \<forall>arg.
            local_of code f key = Some (Some arg) \<longrightarrow> Py_TYPE (heap s) arg = expected)) \<and>
      ((\<exists>s'. do_type_checking env func code f s = Inr (True, s')) \<longleftrightarrow>
         (\<exists>(key, expected) \<in> set items. \<exists>arg.
            local_of code f key = Some (Some arg) \<and> Py_TYPE (heap s) arg \<noteq> expected)) \<and>
      (\<forall>(key, expected) \<in> set items. \<forall>arg n.
         local_of code f key = Some (Some arg) \<and> Py_TYPE (heap s) arg \<noteq> expected \<and>
         inherits_from n (heap s) (Py_TYPE (heap s) arg) expected \<longrightarrow>
         (\<exists>s'. do_type_checking env func code f s = Inr (True, s')))"
      unfolding mis all by blast
  qed
qed

theorem exact_type_identity_witness:
  "(\<exists>s'. do_type_checking example_env 10 \<lparr>co_addr = 100, co_varnames = [''x'', ''y'']\<rparr>
           \<lparr>f_code = \<lparr>co_addr = 100, co_varnames = [''x'', ''y'']\<rparr>,
            f_localsplus = [Some 20, Some 21]\<rparr> enabled_state = Inr (False, s')) \<and>
   Py_TYPE (heap enabled_state) 22 = 5 \<and> inherits_from 1 (heap enabled_state) 5 3 \<and>
   (\<exists>s'. do_type_checking example_env 10 \<lparr>co_addr = 100, co_varnames = [''x'', ''y'']\<rparr>
           \<lparr>f_code = \<lparr>co_addr = 100, co_varnames = [''x'', ''y'']\<rparr>,
            f_localsplus = [Some 22, Some 21]\<rparr> enabled_state = Inr (True, s')) \<and>
   items_loop example_env \<lparr>co_addr = 100, co_varnames = [''x'', ''y'']\<rparr>
     \<lparr>f_code = \<lparr>co_addr = 100, co_varnames = [''x'', ''y'']\<rparr>,
      f_localsplus = [Some 22, Some 21]\<rparr> [(''x'', 3), (''y'', 4)] enabled_state =
     Inr (True, PyErr_Format PyExc_TypeError (prac_message ''int'' ''bool'' ''x'') enabled_state)"
  using exact_type_identity [of enabled_state 3
      "\<lparr>co_addr = 100, co_varnames = [''x'', ''y'']\<rparr>"
      "\<lparr>f_code = \<lparr>co_addr = 100, co_varnames = [''x'', ''y'']\<rparr>,
        f_localsplus = [Some 20, Some 21]\<rparr>" "''x''" 20 example_env "[(''y'', 4)]"
      10 "[(''x'', 3), (''y'', 4)]"]
    exact_type_identity [of enabled_state 3
      "\<lparr>co_addr = 100, co_varnames = [''x'', ''y'']\<rparr>"
      "\<lparr>f_code = \<lparr>co_addr = 100, co_varnames = [''x'', ''y'']\<rparr>,
        f_localsplus = [Some 22, Some 21]\<rparr>" "''x''" 22 example_env "[(''y'', 4)]"
      10 "[(''x'', 3), (''y'', 4)]"]
  by (simp add: example_defs supported_def local_of_def)

text \<open>
  C2 as it is written speaks of every contract entry and every argument value. The class
  \<^verbatim>\<open>Color\<close> has the metaclass \<^verbatim>\<open>EnumMeta\<close>: for \<^verbatim>\<open>def q(c: Color)\<close> and an argument whose
  type is \<^verbatim>\<open>Color\<close> itself, the check does not pass, the process aborts. And for
  \<^verbatim>\<open>def r(x: int)\<close> with the slot of \<open>x\<close> empty, the check dereferences \<^verbatim>\<open>NULL\<close>.
\<close>

theorem exact_type_identity_counterexample:
  "func_annotations (heap enabled_state 16) = Some [(''c'', 8)] \<and>
   local_of \<lparr>co_addr = 106, co_varnames = [''c'']\<rparr>
     \<lparr>f_code = \<lparr>co_addr = 106, co_varnames = [''c'']\<rparr>, f_localsplus = [Some 24]\<rparr> ''c'' =
     Some (Some 24) \<and>
   Py_TYPE (heap enabled_state) 24 = 8 \<and>
   do_type_checking example_env 16 \<lparr>co_addr = 106, co_varnames = [''c'']\<rparr>
     \<lparr>f_code = \<lparr>co_addr = 106, co_varnames = [''c'']\<rparr>, f_localsplus = [Some 24]\<rparr>
     enabled_state = Inl (Aborted (type_expected_message ''EnumMeta'')) \<and>
   func_annotations (heap enabled_state 17) = Some [(''x'', 3)] \<and>
   do_type_checking example_env 17 \<lparr>co_addr = 107, co_varnames = [''x'']\<rparr>
     \<lparr>f_code = \<lparr>co_addr = 107, co_varnames = [''x'']\<rparr>, f_localsplus = [None]\<rparr>
     enabled_state = Inl Null_dereference"
  by (simp add: example_defs local_of_def do_type_checking_def)

subsection \<open>C3: the cache slot is written once\<close>

text \<open>
  C3, as the program has it. Run any sequence of events to a state \<open>s1\<close>, and any further
  sequence to a state \<open>s2\<close>. A slot that is set at \<open>s1\<close>, of whatever code object and
  index, has the same value at \<open>s2\<close>. If moreover the run starts from a state where every
  slot of index \<open>extra_idx\<close> is \<^verbatim>\<open>NULL\<close> and the resolver has not been called, and no event
  is a further call of \<open>prac_enable\<close>, then \<open>extra_idx\<close> has not changed; the slot of every code
  object whose call was intercepted on the way to \<open>s1\<close> is the marker or a function object;
  at \<open>s2\<close> the resolver has been called at most once for every code object, and never for
  one whose slot is still \<^verbatim>\<open>NULL\<close>; and a slot that was set at \<open>s1\<close> has seen no resolver
  call since, whatever the host did to the objects and whatever \<^verbatim>\<open>gc.get_referrers\<close> would
  answer later.
\<close>

theorem cache_write_once:
  assumes "run events1 s0 = Inr s1"
    and "run events2 s1 = Inr s2"
  shows "(\<forall>c idx. co_extra s1 c idx \<noteq> NULL \<longrightarrow> co_extra s2 c idx = co_extra s1 c idx) \<and>
         ((\<forall>c. co_extra s0 c (extra_idx s0) = NULL \<and> resolver_calls s0 c = 0) \<and>
          (\<forall>ev \<in> set (events1 @ events2). \<not> enables ev) \<longrightarrow>
            extra_idx s1 = extra_idx s0 \<and> extra_idx s2 = extra_idx s0 \<and>
            (\<forall>env tstate f exc. Intercept env tstate f exc \<in> set events1 \<longrightarrow>
               co_extra s1 (co_addr (f_code f)) (extra_idx s0) = SENTINEL \<or>
               (\<exists>fn. co_extra s1 (co_addr (f_code f)) (extra_idx s0) = Ptr fn)) \<and>
            (\<forall>c. resolver_calls s2 c \<le> 1 \<and>
               (resolver_calls s2 c = 0 \<longleftrightarrow> co_extra s2 c (extra_idx s0) = NULL) \<and>
               (co_extra s1 c (extra_idx s0) \<noteq> NULL \<longrightarrow>
                  co_extra s2 c (extra_idx s0) = co_extra s1 c (extra_idx s0) \<and>
                  resolver_calls s2 c = resolver_calls s1 c)))"
proof (intro conjI impI)
  show "\<forall>c idx. co_extra s1 c idx \<noteq> NULL \<longrightarrow> co_extra s2 c idx = co_extra s1 c idx"
    using run_slot_stable [OF assms(2)] by blast
next
  assume hyps: "(\<forall>c. co_extra s0 c (extra_idx s0) = NULL \<and> resolver_calls s0 c = 0) \<and>
          (\<forall>ev \<in> set (events1 @ events2). \<not> enables ev)"
  then have inv0: "cache_inv s0"
    and no1: "\<forall>ev \<in> set events1. \<not> enables ev"
    and no2: "\<forall>ev \<in> set events2. \<not> enables ev"
    by (simp_all add: cache_inv_def cache_slot_def)
  from run_cache [OF inv0 assms(1) no1] have
    one: "extra_idx s1 = extra_idx s0" "cache_inv s1"
      "\<And>env tstate f exc. Intercept env tstate f exc \<in> set events1 \<Longrightarrow>
            cache_slot s1 (co_addr (f_code f)) \<noteq> NULL"
    by blast+
  from run_cache [OF one(2) assms(2) no2] have
    two: "extra_idx s2 = extra_idx s1" "cache_inv s2"
      "\<And>c. cache_slot s1 c \<noteq> NULL \<Longrightarrow>
         cache_slot s2 c = cache_slot s1 c \<and> resolver_calls s2 c = resolver_calls s1 c"
    by blast+
  have first: "co_extra s1 (co_addr (f_code f)) (extra_idx s0) = SENTINEL \<or>
      (\<exists>fn. co_extra s1 (co_addr (f_code f)) (extra_idx s0) = Ptr fn)"
    if "Intercept env tstate f exc \<in> set events1" for env tstate f exc
    using one(3) [OF that] one(1)
    by (cases "co_extra s1 (co_addr (f_code f)) (extra_idx s0)") (simp_all add: cache_slot_def)
  have later: "resolver_calls s2 c \<le> 1 \<and>
            (resolver_calls s2 c = 0 \<longleftrightarrow> co_extra s2 c (extra_idx s0) = NULL) \<and>
            (co_extra s1 c (extra_idx s0) \<noteq> NULL \<longrightarrow>
               co_extra s2 c (extra_idx s0) = co_extra s1 c (extra_idx s0) \<and>
               resolver_calls s2 c = resolver_calls s1 c)" for c
    using one(2) two(2) two(3) [of c] one(1) two(1)
    by (auto simp: cache_inv_def cache_slot_def)
  from one(1) two(1) have idx2: "extra_idx s2 = extra_idx s0"
    by simp
  show "extra_idx s1 = extra_idx s0" by (rule one(1))
  show "extra_idx s2 = extra_idx s0" by (rule idx2)
  show "\<forall>env tstate f exc. Intercept env tstate f exc \<in> set events1 \<longrightarrow>
               co_extra s1 (co_addr (f_code f)) (extra_idx s0) = SENTINEL \<or>
               (\<exists>fn. co_extra s1 (co_addr (f_code f)) (extra_idx s0) = Ptr fn)"
    using first by blast
  show "\<forall>c. resolver_calls s2 c \<le> 1 \<and>
               (resolver_calls s2 c = 0 \<longleftrightarrow> co_extra s2 c (extra_idx s0) = NULL) \<and>
               (co_extra s1 c (extra_idx s0) \<noteq> NULL \<longrightarrow>
                  co_extra s2 c (extra_idx s0) = co_extra s1 c (extra_idx s0) \<and>
                  resolver_calls s2 c = resolver_calls s1 c)"
    using later by blast
qed

theorem cache_write_once_witness:
  "\<exists>s1 s2.
     run [Intercept example_env 0
            \<lparr>f_code = \<lparr>co_addr = 200, co_varnames = []\<rparr>, f_localsplus = []\<rparr> 0]
       enabled_state = Inr s1 \<and>
     run [Host_mutation (example_heap(40 := Function_object 1 200 None)) (\<lambda>ob. 1) None,
          Intercept (example_env\<lparr>referrers_of := (\<lambda>c. Some [40])\<rparr>) 0
            \<lparr>f_code = \<lparr>co_addr = 200, co_varnames = []\<rparr>, f_localsplus = []\<rparr> 0]
       s1 = Inr s2 \<and>
     co_extra s1 200 0 = SENTINEL \<and> co_extra s2 200 0 = SENTINEL \<and>
     resolver_calls s2 200 = 1"
proof -
  let ?f = "\<lparr>f_code = \<lparr>co_addr = 200, co_varnames = []\<rparr>, f_localsplus = []\<rparr>"
  let ?events1 = "[Intercept example_env 0 ?f 0]"
  let ?events2 = "[Host_mutation (example_heap(40 := Function_object 1 200 None)) (\<lambda>ob. 1) None,
                  Intercept (example_env\<lparr>referrers_of := (\<lambda>c. Some [40])\<rparr>) 0 ?f 0]"
  note defs = example_defs prac_eval_frame_def PyCode_GetExtra_def PyCode_SetExtra_def
    get_function_for_code_def PyErr_Clear_def
  define s1 where "s1 = projr (run ?events1 enabled_state)"
  define s2 where "s2 = projr (run ?events2 s1)"
  have run1: "run ?events1 enabled_state = Inr s1"
    unfolding s1_def by (simp add: defs)
  have slot1: "co_extra s1 200 0 = SENTINEL"
    unfolding s1_def by (simp add: defs)
  have run2: "run ?events2 s1 = Inr s2"
    unfolding s2_def s1_def by (simp add: defs)
  have init: "(\<forall>c. co_extra enabled_state c (extra_idx enabled_state) = NULL \<and>
                resolver_calls enabled_state c = 0) \<and>
              (\<forall>ev \<in> set (?events1 @ ?events2). \<not> enables ev)"
    by (simp add: example_defs)
  have idx: "extra_idx enabled_state = 0"
    by (simp add: example_defs)
  from cache_write_once [OF run1 run2] init have
    "\<forall>c. resolver_calls s2 c \<le> 1 \<and>
               (resolver_calls s2 c = 0 \<longleftrightarrow> co_extra s2 c (extra_idx enabled_state) = NULL) \<and>
               (co_extra s1 c (extra_idx enabled_state) \<noteq> NULL \<longrightarrow>
                  co_extra s2 c (extra_idx enabled_state) = co_extra s1 c (extra_idx enabled_state) \<and>
                  resolver_calls s2 c = resolver_calls s1 c)"
    by blast
  then have "resolver_calls s2 200 \<le> 1 \<and>
               (resolver_calls s2 200 = 0 \<longleftrightarrow> co_extra s2 200 0 = NULL) \<and>
               (co_extra s1 200 0 \<noteq> NULL \<longrightarrow> co_extra s2 200 0 = co_extra s1 200 0)"
    unfolding idx by blast
  with slot1 have "co_extra s2 200 0 = SENTINEL \<and> resolver_calls s2 200 = 1"
    by auto
  with run1 run2 slot1 show ?thesis
    by (intro exI [of _ s1] exI [of _ s2]) simp
qed

text \<open>
  C3 as it is written allows at most one resolver call per code object for ever. Built
  without assertions, a further call of \<open>prac_enable\<close> succeeds and moves \<open>extra_idx\<close> to a
  fresh slot index, and the next call through the same code object runs the resolver
  again: after a call, \<open>prac_enable\<close> and a second call, the resolver has run twice for the
  code object 200.
\<close>

theorem cache_write_once_counterexample:
  "\<not> isl (run [Intercept (example_env\<lparr>assertions_enabled := False\<rparr>) 0
                 \<lparr>f_code = \<lparr>co_addr = 200, co_varnames = []\<rparr>, f_localsplus = []\<rparr> 0,
               Enable (example_env\<lparr>assertions_enabled := False\<rparr>),
               Intercept (example_env\<lparr>assertions_enabled := False\<rparr>) 0
                 \<lparr>f_code = \<lparr>co_addr = 200, co_varnames = []\<rparr>, f_localsplus = []\<rparr> 0]
          enabled_state) \<and>
   resolver_calls
     (projr (run [Intercept (example_env\<lparr>assertions_enabled := False\<rparr>) 0
                    \<lparr>f_code = \<lparr>co_addr = 200, co_varnames = []\<rparr>, f_localsplus = []\<rparr> 0,
                  Enable (example_env\<lparr>assertions_enabled := False\<rparr>),
                  Intercept (example_env\<lparr>assertions_enabled := False\<rparr>) 0
                    \<lparr>f_code = \<lparr>co_addr = 200, co_varnames = []\<rparr>, f_localsplus = []\<rparr> 0]
             enabled_state)) 200 = 2"
  by (simp add: example_defs prac_eval_frame_def PyCode_GetExtra_def PyCode_SetExtra_def
      get_function_for_code_def PyErr_Clear_def prac_enable_def
      PyEval_RequestCodeExtraIndex_def MAX_CO_EXTRA_USERS_def)

subsection \<open>C4: a call checked against no contract is passed through\<close>

text \<open>
  C4, as the program has it. The frame carries its code object and not the function that
  is called, so the call is checked against the function object cached for the code object
  or, on the code object's first call, against the first function object among its
  referrers; this need not be the function called. When that function has no contract
  table (\<^verbatim>\<open>func_annotations\<close> is \<^verbatim>\<open>NULL\<close>) or an empty one, and also when the call is checked
  against no function at all, \<open>prac_eval_frame\<close> ends in the tail call of the default
  routine with the same thread state, frame and flag, so its result is the default
  routine's; the objects are untouched and no error is raised: the error indicator is
  what it was, or is cleared.
\<close>

theorem no_contract_pass_through:
  assumes "no_owner env f s \<or>
           (resolves_to env f s fn \<and>
            (func_annotations (heap s fn) = None \<or> func_annotations (heap s fn) = Some []))"
  shows "\<exists>s'. prac_eval_frame env tstate f exc s = Inr (EvalFrameDefault tstate f exc, s') \<and>
           heap s' = heap s \<and> (curexc s' = curexc s \<or> curexc s' = None)"
  using assms
proof
  assume none: "no_owner env f s"
  show ?thesis
  proof (cases "co_extra s (co_addr (f_code f)) (extra_idx s)")
    case NULL
    with none obtain s1 where
      res: "get_function_for_code env (f_code f) s = Inr (None, s1)"
      by (auto simp: no_owner_def split: sum.splits option.splits)
    from get_function_for_code_state(1) [OF res] get_function_for_code_curexc [OF res]
    have "heap s1 = heap s" "curexc s1 = curexc s \<or> curexc s1 = None"
      by simp_all
    with NULL res show ?thesis
      by (intro exI [of _ "PyCode_SetExtra (f_code f) (extra_idx s1) SENTINEL s1"])
        (simp add: prac_eval_frame_def PyCode_GetExtra_def PyCode_SetExtra_def)
  next
    case SENTINEL
    then show ?thesis
      by (intro exI [of _ s]) (simp add: prac_eval_frame_def PyCode_GetExtra_def)
  next
    case (Ptr fn')
    with none show ?thesis by (simp add: no_owner_def)
  qed
next
  assume "resolves_to env f s fn \<and>
          (func_annotations (heap s fn) = None \<or> func_annotations (heap s fn) = Some [])"
  then have owner: "resolves_to env f s fn"
    and table: "func_annotations (heap s fn) = None \<or> func_annotations (heap s fn) = Some []"
    by simp_all
  from resolves_to_check [OF owner] obtain s2 where
    same: "heap s2 = heap s" "curexc s2 = curexc s" and
    call: "prac_eval_frame env tstate f exc s = check_then_eval env tstate f exc fn s2"
    by blast
  from table show ?thesis
  proof
    assume "func_annotations (heap s fn) = None"
    with call same show ?thesis
      by (simp add: check_then_eval_def do_type_checking_def)
  next
    assume "func_annotations (heap s fn) = Some []"
    with call same show ?thesis
      by (simp add: check_then_eval_def do_type_checking_def PyErr_Clear_def)
  qed
qed

theorem no_contract_pass_through_witness:
  "(\<exists>s'. prac_eval_frame example_env 7
           \<lparr>f_code = \<lparr>co_addr = 104, co_varnames = [''x'']\<rparr>, f_localsplus = [Some 21]\<rparr> 0
           enabled_state =
           Inr (EvalFrameDefault 7
                  \<lparr>f_code = \<lparr>co_addr = 104, co_varnames = [''x'']\<rparr>, f_localsplus = [Some 21]\<rparr> 0,
                s') \<and>
         heap s' = heap enabled_state \<and> curexc s' = None) \<and>
   (\<exists>s'. prac_eval_frame example_env 7
           \<lparr>f_code = \<lparr>co_addr = 200, co_varnames = []\<rparr>, f_localsplus = []\<rparr> 0
           enabled_state =
           Inr (EvalFrameDefault 7
                  \<lparr>f_code = \<lparr>co_addr = 200, co_varnames = []\<rparr>, f_localsplus = []\<rparr> 0,
                s') \<and>
         heap s' = heap enabled_state \<and> curexc s' = None)"
  using no_contract_pass_through [of example_env
      "\<lparr>f_code = \<lparr>co_addr = 104, co_varnames = [''x'']\<rparr>, f_localsplus = [Some 21]\<rparr>"
      enabled_state 14 7 0]
    no_contract_pass_through [of example_env
      "\<lparr>f_code = \<lparr>co_addr = 200, co_varnames = []\<rparr>, f_localsplus = []\<rparr>"
      enabled_state 0 7 0]
  by (simp add: example_defs resolves_to_def no_owner_def get_function_for_code_def)

text \<open>
  C4 as it is written speaks of the function that is called. The function \<^verbatim>\<open>r2\<close> has no
  contract table and shares its code object with \<^verbatim>\<open>r\<close>, which comes first among the
  referrers: the call \<^verbatim>\<open>r2("s")\<close> is rejected with the \<^verbatim>\<open>TypeError\<close> of the contract of
  \<^verbatim>\<open>r\<close>.
\<close>

theorem no_contract_counterexample:
  "PyFunction_Check (heap enabled_state) 41 \<and>
   func_code (heap enabled_state 41) = 107 \<and>
   func_annotations (heap enabled_state 41) = None \<and>
   referrers_of example_env 107 = Some [30, 17, 41] \<and>
   map_sum id fst (prac_eval_frame example_env 0
     \<lparr>f_code = \<lparr>co_addr = 107, co_varnames = [''x'']\<rparr>, f_localsplus = [Some 21]\<rparr> 0
     enabled_state) = Inr Returns_NULL \<and>
   map_sum id (curexc \<circ> snd) (prac_eval_frame example_env 0
     \<lparr>f_code = \<lparr>co_addr = 107, co_varnames = [''x'']\<rparr>, f_localsplus = [Some 21]\<rparr> 0
     enabled_state) = Inr (Some (PyExc_TypeError, prac_message ''int'' ''str'' ''x''))"
  by (simp add: example_defs get_function_for_code_def
      prac_eval_frame_def PyCode_GetExtra_def PyCode_SetExtra_def check_then_eval_def
      do_type_checking_def Py_INCREF_def PyErr_Format_def)

subsection \<open>C5: the resolver returns the first referrer that is a function\<close>



subsection \<open>C6: where the capability is looked up\<close>

text \<open>
  C6, as the program has it. When \<^verbatim>\<open>gc.get_referrers\<close> cannot be found, \<open>prac_enable\<close>
  does what it does when it can be found; the first intercepted call through a code object
  whose slot is \<^verbatim>\<open>NULL\<close>, while the static pointer is unset, aborts the process with the
  message of \<open>get_function_for_code\<close>; and a call with the pointer already set or the slot
  already written never aborts with that message.
\<close>

theorem capability_checked_at_first_resolution:
  assumes "\<not> gc_lookup_ok env"
  shows "prac_enable env s = prac_enable (env\<lparr>gc_lookup_ok := True\<rparr>) s \<and>
         (\<not> gc_get_referrers s \<and> co_extra s (co_addr (f_code f)) (extra_idx s) = NULL \<longrightarrow>
            prac_eval_frame env tstate f exc s = Inl (Aborted gc_abort_message)) \<and>
         (gc_get_referrers s \<or> co_extra s (co_addr (f_code f)) (extra_idx s) \<noteq> NULL \<longrightarrow>
            prac_eval_frame env tstate f exc s \<noteq> Inl (Aborted gc_abort_message))"
proof (intro conjI impI)
  have "interp_loop (env\<lparr>gc_lookup_ok := True\<rparr>) interps = interp_loop env interps" for interps
    by (rule interp_loop_env) simp
  then show "prac_enable env s = prac_enable (env\<lparr>gc_lookup_ok := True\<rparr>) s"
    by (simp add: prac_enable_def PyEval_RequestCodeExtraIndex_def)
next
  assume "\<not> gc_get_referrers s \<and> co_extra s (co_addr (f_code f)) (extra_idx s) = NULL"
  with assms show "prac_eval_frame env tstate f exc s = Inl (Aborted gc_abort_message)"
    by (simp add: prac_eval_frame_def PyCode_GetExtra_def get_function_for_code_def)
next
  assume ok: "gc_get_referrers s \<or> co_extra s (co_addr (f_code f)) (extra_idx s) \<noteq> NULL"
  show "prac_eval_frame env tstate f exc s \<noteq> Inl (Aborted gc_abort_message)"
  proof (cases "co_extra s (co_addr (f_code f)) (extra_idx s)")
    case NULL
    with ok have "gc_get_referrers s" by simp
    then have "get_function_for_code env (f_code f) s \<noteq> Inl c" for c
      by (simp add: get_function_for_code_def Let_def split: option.splits)
    then obtain func s1 where "get_function_for_code env (f_code f) s = Inr (func, s1)"
      by (cases "get_function_for_code env (f_code f) s") auto
    with NULL show ?thesis
      by (cases func)
        (simp_all add: prac_eval_frame_def PyCode_GetExtra_def check_then_eval_no_gc_abort)
  next
    case SENTINEL
    then show ?thesis by (simp add: prac_eval_frame_def PyCode_GetExtra_def)
  next
    case (Ptr fn)
    then show ?thesis
      by (simp add: prac_eval_frame_def PyCode_GetExtra_def check_then_eval_no_gc_abort)
  qed
qed

theorem capability_checked_at_first_resolution_witness:
  "prac_enable (example_env\<lparr>gc_lookup_ok := False\<rparr>) example_state =
     prac_enable example_env example_state \<and>
   prac_eval_frame (example_env\<lparr>gc_lookup_ok := False\<rparr>) 0
     \<lparr>f_code = \<lparr>co_addr = 100, co_varnames = [''x'', ''y'']\<rparr>,
      f_localsplus = [Some 20, Some 21]\<rparr> 0 enabled_state = Inl (Aborted gc_abort_message) \<and>
   prac_eval_frame (example_env\<lparr>gc_lookup_ok := False\<rparr>) 0
     \<lparr>f_code = \<lparr>co_addr = 100, co_varnames = [''x'', ''y'']\<rparr>,
      f_localsplus = [Some 20, Some 21]\<rparr> 0
     (enabled_state\<lparr>co_extra := (\<lambda>code idx. if code = 100 \<and> idx = 0 then Ptr 10 else NULL)\<rparr>)
     \<noteq> Inl (Aborted gc_abort_message)"
  using capability_checked_at_first_resolution [of "example_env\<lparr>gc_lookup_ok := False\<rparr>"
      example_state
      "\<lparr>f_code = \<lparr>co_addr = 100, co_varnames = [''x'', ''y'']\<rparr>,
        f_localsplus = [Some 20, Some 21]\<rparr>" 0 0]
    capability_checked_at_first_resolution [of "example_env\<lparr>gc_lookup_ok := False\<rparr>"
      enabled_state
      "\<lparr>f_code = \<lparr>co_addr = 100, co_varnames = [''x'', ''y'']\<rparr>,
        f_localsplus = [Some 20, Some 21]\<rparr>" 0 0]
    capability_checked_at_first_resolution [of "example_env\<lparr>gc_lookup_ok := False\<rparr>"
      "enabled_state\<lparr>co_extra := (\<lambda>code idx. if code = 100 \<and> idx = 0 then Ptr 10 else NULL)\<rparr>"
      "\<lparr>f_code = \<lparr>co_addr = 100, co_varnames = [''x'', ''y'']\<rparr>,
        f_localsplus = [Some 20, Some 21]\<rparr>" 0 0]
  by (simp add: example_defs)

text \<open>
  C6 as it is written puts the failure in \<open>prac_enable\<close>. On a host without
  \<^verbatim>\<open>gc.get_referrers\<close>, \<open>prac_enable\<close> succeeds on the fresh state, and the first
  intercepted call aborts the process.
\<close>

theorem capability_counterexample:
  "\<not> gc_lookup_ok (example_env\<lparr>gc_lookup_ok := False\<rparr>) \<and>
   prac_enable (example_env\<lparr>gc_lookup_ok := False\<rparr>) example_state =
     Inr (True, enabled_state) \<and>
   prac_eval_frame (example_env\<lparr>gc_lookup_ok := False\<rparr>) 0
     \<lparr>f_code = \<lparr>co_addr = 103, co_varnames = [''x'']\<rparr>, f_localsplus = [Some 20]\<rparr> 0
     enabled_state = Inl (Aborted gc_abort_message)"
  by (simp add: prac_enable_def PyEval_RequestCodeExtraIndex_def MAX_CO_EXTRA_USERS_def
      example_env_def example_state_def enabled_state_def
      prac_eval_frame_def PyCode_GetExtra_def get_function_for_code_def)

subsection \<open>C7: a contract name that is no local variable\<close>

text \<open>
  C7, as the program has it. Let an entry \<open>(key, val)\<close> of the contract table have a name
  that is not in \<^verbatim>\<open>co_varnames\<close>, let the host list the items, and let every entry before
  it be satisfied. Then the name lookup ends at the length of \<^verbatim>\<open>co_varnames\<close>. With
  assertions compiled in, the call dies at the assertion. Without them, when the frame
  has a slot at that index (the first slot after those of the local variables), the entry
  is checked against whatever that slot holds: the process aborts when the declared value
  is not exactly a type, dereferences \<^verbatim>\<open>NULL\<close> when the slot is empty, raises the
  \<^verbatim>\<open>TypeError\<close> that names \<open>key\<close> when the slot holds an object of another type, and goes on
  with the entries after it when the slot holds an object of the declared type.
\<close>

theorem unknown_name_crashes:
  assumes "resolves_to env f s fn"
    and "func_annotations (heap s fn) = Some (passed @ (key, val) # rest)"
    and "mapping_items_ok env" and "get_iter_ok env"
    and "\<forall>item \<in> set passed. contract_satisfied (heap s) (f_code f) f item"
    and "key \<notin> set (co_varnames (f_code f))"
  shows "varnames_loop (co_varnames (f_code f)) key 0 = length (co_varnames (f_code f)) \<and>
         (assertions_enabled env \<longrightarrow>
            prac_eval_frame env tstate f exc s = Inl Assertion_failed) \<and>
         (\<not> assertions_enabled env \<and>
          length (co_varnames (f_code f)) < length (f_localsplus f) \<longrightarrow>
            (\<exists>s2. heap s2 = heap s \<and> curexc s2 = curexc s \<and>
               prac_eval_frame env tstate f exc s =
                 (if \<not> PyType_CheckExact (heap s) val
                  then Inl (Aborted (type_expected_message
                              (tp_name (heap s (Py_TYPE (heap s) val)))))
                  else (case f_localsplus f ! length (co_varnames (f_code f)) of
                          None \<Rightarrow> Inl Null_dereference
                        | Some arg \<Rightarrow>
                            if Py_TYPE (heap s) arg \<noteq> val
                            then Inr (Returns_NULL,
                                   PyErr_Format PyExc_TypeError
                                     (prac_message (tp_name (heap s val))
                                        (tp_name (heap s (Py_TYPE (heap s) arg))) key) s2)
                            else (case items_loop env (f_code f) f rest s2 of
                                    Inl c \<Rightarrow> Inl c
                                  | Inr (ret, s') \<Rightarrow>
                                      if ret then Inr (Returns_NULL, s')
                                      else Inr (EvalFrameDefault tstate f exc, s'))))))"
proof -
  from resolves_to_check [OF assms(1)] obtain s2 where
    same: "heap s2 = heap s" "curexc s2 = curexc s" and
    call: "prac_eval_frame env tstate f exc s = check_then_eval env tstate f exc fn s2"
    by blast
  from assms(5) same have "\<forall>item \<in> set passed. contract_satisfied (heap s2) (f_code f) f item"
    by simp
  from items_loop_prefix [OF this]
  have "items_loop env (f_code f) f (passed @ (key, val) # rest) s2 =
          items_loop env (f_code f) f ((key, val) # rest) s2" .
  with assms(2,3,4) same have checked: "do_type_checking env fn (f_code f) f s2 =
      items_loop env (f_code f) f ((key, val) # rest) s2"
    by (simp add: do_type_checking_def)
  note entry = items_loop_unknown_name [OF assms(6), of env f val rest s2]
  have lookup: "varnames_loop (co_varnames (f_code f)) key 0 = length (co_varnames (f_code f))"
    using assms(6) by (simp add: varnames_loop_missing)
  have debug: "prac_eval_frame env tstate f exc s = Inl Assertion_failed"
    if "assertions_enabled env"
    using that call checked entry by (simp add: check_then_eval_def)
  have release: "prac_eval_frame env tstate f exc s =
                 (if \<not> PyType_CheckExact (heap s) val
                  then Inl (Aborted (type_expected_message
                              (tp_name (heap s (Py_TYPE (heap s) val)))))
                  else (case f_localsplus f ! length (co_varnames (f_code f)) of
                          None \<Rightarrow> Inl Null_dereference
                        | Some arg \<Rightarrow>
                            if Py_TYPE (heap s) arg \<noteq> val
                            then Inr (Returns_NULL,
                                   PyErr_Format PyExc_TypeError
                                     (prac_message (tp_name (heap s val))
                                        (tp_name (heap s (Py_TYPE (heap s) arg))) key) s2)
                            else (case items_loop env (f_code f) f rest s2 of
                                    Inl c \<Rightarrow> Inl c
                                  | Inr (ret, s') \<Rightarrow>
                                      if ret then Inr (Returns_NULL, s')
                                      else Inr (EvalFrameDefault tstate f exc, s'))))"
    if "\<not> assertions_enabled env \<and> length (co_varnames (f_code f)) < length (f_localsplus f)"
    using that call checked entry same
    by (simp add: check_then_eval_def split: option.splits)
  from lookup debug release same show ?thesis
    by blast
qed

theorem unknown_name_crashes_witness:
  "varnames_loop [''x''] ''return'' 0 = 1 \<and>
   prac_eval_frame example_env 0
     \<lparr>f_code = \<lparr>co_addr = 102, co_varnames = [''x'']\<rparr>, f_localsplus = [Some 20, Some 21]\<rparr> 0
     enabled_state = Inl Assertion_failed \<and>
   (\<exists>s'. prac_eval_frame (example_env\<lparr>assertions_enabled := False\<rparr>) 0
            \<lparr>f_code = \<lparr>co_addr = 102, co_varnames = [''x'']\<rparr>,
             f_localsplus = [Some 20, Some 21]\<rparr> 0 enabled_state = Inr (Returns_NULL, s') \<and>
          curexc s' = Some (PyExc_TypeError, prac_message ''int'' ''str'' ''return'')) \<and>
   prac_eval_frame (example_env\<lparr>assertions_enabled := False\<rparr>) 0
     \<lparr>f_code = \<lparr>co_addr = 102, co_varnames = [''x'']\<rparr>, f_localsplus = [Some 20, None]\<rparr> 0
     enabled_state = Inl Null_dereference"
proof -
  note defs = example_defs resolves_to_def get_function_for_code_def contract_satisfied_def
    local_of_def
  from unknown_name_crashes [of example_env
      "\<lparr>f_code = \<lparr>co_addr = 102, co_varnames = [''x'']\<rparr>, f_localsplus = [Some 20, Some 21]\<rparr>"
      enabled_state 12 "[(''x'', 3)]" "''return''" 3 "[]" 0 0]
  have debug: "varnames_loop [''x''] ''return'' 0 = 1 \<and>
      prac_eval_frame example_env 0
        \<lparr>f_code = \<lparr>co_addr = 102, co_varnames = [''x'']\<rparr>, f_localsplus = [Some 20, Some 21]\<rparr> 0
        enabled_state = Inl Assertion_failed"
    by (simp add: defs)
  from unknown_name_crashes [of "example_env\<lparr>assertions_enabled := False\<rparr>"
      "\<lparr>f_code = \<lparr>co_addr = 102, co_varnames = [''x'']\<rparr>, f_localsplus = [Some 20, Some 21]\<rparr>"
      enabled_state 12 "[(''x'', 3)]" "''return''" 3 "[]" 0 0]
  obtain s2 where "prac_eval_frame (example_env\<lparr>assertions_enabled := False\<rparr>) 0
            \<lparr>f_code = \<lparr>co_addr = 102, co_varnames = [''x'']\<rparr>,
             f_localsplus = [Some 20, Some 21]\<rparr> 0 enabled_state =
          Inr (Returns_NULL, PyErr_Format PyExc_TypeError
                 (prac_message ''int'' ''str'' ''return'') s2)"
    by (auto simp: defs)
  then have raised: "\<exists>s'. prac_eval_frame (example_env\<lparr>assertions_enabled := False\<rparr>) 0
            \<lparr>f_code = \<lparr>co_addr = 102, co_varnames = [''x'']\<rparr>,
             f_localsplus = [Some 20, Some 21]\<rparr> 0 enabled_state = Inr (Returns_NULL, s') \<and>
          curexc s' = Some (PyExc_TypeError, prac_message ''int'' ''str'' ''return'')"
    by (simp add: PyErr_Format_def)
  from unknown_name_crashes [of "example_env\<lparr>assertions_enabled := False\<rparr>"
      "\<lparr>f_code = \<lparr>co_addr = 102, co_varnames = [''x'']\<rparr>, f_localsplus = [Some 20, None]\<rparr>"
      enabled_state 12 "[(''x'', 3)]" "''return''" 3 "[]" 0 0]
  have empty: "prac_eval_frame (example_env\<lparr>assertions_enabled := False\<rparr>) 0
     \<lparr>f_code = \<lparr>co_addr = 102, co_varnames = [''x'']\<rparr>, f_localsplus = [Some 20, None]\<rparr> 0
     enabled_state = Inl Null_dereference"
    by (auto simp: defs)
  from debug raised empty show ?thesis
    by blast
qed

text \<open>
  C7 as it is written speaks of every table with such an entry, and of an out-of-bounds
  access in place of a skipped entry or a recoverable error. For \<^verbatim>\<open>h("s")\<close> with
  \<^verbatim>\<open>def h(x: int) -> int\<close> the table has the key \<^verbatim>\<open>return\<close>, and the call is rejected
  with the \<^verbatim>\<open>TypeError\<close> of \<open>x\<close>: checking stops before the entry is looked up. And built
  without assertions, \<^verbatim>\<open>h(7)\<close> in a frame whose slot after the local variable holds an
  \<^verbatim>\<open>int\<close> passes the entry of \<^verbatim>\<open>return\<close> and runs the callee.
\<close>

theorem unknown_name_counterexample:
  "resolves_to example_env
     \<lparr>f_code = \<lparr>co_addr = 102, co_varnames = [''x'']\<rparr>, f_localsplus = [Some 21, None]\<rparr>
     enabled_state 12 \<and>
   func_annotations (heap enabled_state 12) = Some [(''x'', 3), (''return'', 3)] \<and>
   ''return'' \<notin> set [''x''] \<and>
   assertions_enabled example_env \<and>
   map_sum id fst (prac_eval_frame example_env 0
     \<lparr>f_code = \<lparr>co_addr = 102, co_varnames = [''x'']\<rparr>, f_localsplus = [Some 21, None]\<rparr> 0
     enabled_state) = Inr Returns_NULL \<and>
   map_sum id (curexc \<circ> snd) (prac_eval_frame example_env 0
     \<lparr>f_code = \<lparr>co_addr = 102, co_varnames = [''x'']\<rparr>, f_localsplus = [Some 21, None]\<rparr> 0
     enabled_state) = Inr (Some (PyExc_TypeError, prac_message ''int'' ''str'' ''x'')) \<and>
   \<not> assertions_enabled (example_env\<lparr>assertions_enabled := False\<rparr>) \<and>
   map_sum id fst (prac_eval_frame (example_env\<lparr>assertions_enabled := False\<rparr>) 0
     \<lparr>f_code = \<lparr>co_addr = 102, co_varnames = [''x'']\<rparr>, f_localsplus = [Some 20, Some 20]\<rparr> 0
     enabled_state) =
     Inr (EvalFrameDefault 0
       \<lparr>f_code = \<lparr>co_addr = 102, co_varnames = [''x'']\<rparr>, f_localsplus = [Some 20, Some 20]\<rparr> 0)"
  by (simp add: example_defs resolves_to_def get_function_for_code_def
      prac_eval_frame_def PyCode_GetExtra_def PyCode_SetExtra_def check_then_eval_def
      do_type_checking_def Py_INCREF_def PyErr_Format_def)

subsection \<open>C8: a declared value that is not a type aborts the process\<close>

text \<open>
  C8. Let an entry of the contract table have a declared value that is not exactly a type
  and a name that is a local variable, let the host list the items, and let every entry
  before it be satisfied. Then the call aborts the process, after printing the name of the
  declared value's type; it neither raises an error nor runs the callee. The witness is
  such a call: \<^verbatim>\<open>p(7, "s")\<close> with \<^verbatim>\<open>def p(n: int, xs: List[int])\<close>.
\<close>

theorem non_type_aborts:
  assumes "resolves_to env f s fn"
    and "func_annotations (heap s fn) = Some (passed @ (key, val) # rest)"
    and "mapping_items_ok env" and "get_iter_ok env"
    and "\<forall>item \<in> set passed. contract_satisfied (heap s) (f_code f) f item"
    and "local_of (f_code f) f key = Some slot"
    and "\<not> PyType_CheckExact (heap s) val"
  shows "prac_eval_frame env tstate f exc s =
           Inl (Aborted (type_expected_message (tp_name (heap s (Py_TYPE (heap s) val)))))"
proof -
  from resolves_to_check [OF assms(1)] obtain s2 where
    same: "heap s2 = heap s" and
    run: "prac_eval_frame env tstate f exc s = check_then_eval env tstate f exc fn s2"
    by blast
  from assms(5) same have "\<forall>item \<in> set passed. contract_satisfied (heap s2) (f_code f) f item"
    by simp
  from items_loop_prefix [OF this]
  have "items_loop env (f_code f) f (passed @ (key, val) # rest) s2 =
          items_loop env (f_code f) f ((key, val) # rest) s2" .
  also have "\<dots> = Inl (Aborted (type_expected_message (tp_name (heap s2 (Py_TYPE (heap s2) val)))))"
    using assms(6,7) same by (intro items_loop_not_a_type) simp_all
  finally show ?thesis
    using run same assms(2,3,4)
    by (simp add: check_then_eval_def do_type_checking_def)
qed

theorem non_type_aborts_witness:
  "prac_eval_frame example_env 0
     \<lparr>f_code = \<lparr>co_addr = 105, co_varnames = [''n'', ''xs'']\<rparr>,
      f_localsplus = [Some 20, Some 21]\<rparr> 0 enabled_state =
     Inl (Aborted (type_expected_message ''_GenericAlias''))"
  using non_type_aborts [of example_env
      "\<lparr>f_code = \<lparr>co_addr = 105, co_varnames = [''n'', ''xs'']\<rparr>,
        f_localsplus = [Some 20, Some 21]\<rparr>" enabled_state 15 "[(''n'', 3)]" "''xs''" 23 "[]"
      "Some 21" 0 0]
  by (simp add: example_defs resolves_to_def get_function_for_code_def contract_satisfied_def
      local_of_def)

subsection \<open>C9: the reference is released exactly once\<close>

text \<open>
  C9. \<open>prac_code_freefunc\<close> lowers the reference count of the function object by one when
  the slot holds a function object, and changes no reference count when the slot is
  \<^verbatim>\<open>NULL\<close> or the marker. When \<open>prac_code_freefunc\<close> is registered for \<open>extra_idx\<close> and the
  code object has no other slot in use, destroying the code object changes the reference
  counts as one call of \<open>prac_code_freefunc\<close> on the cache slot does. Destroying a code
  object a second time releases nothing more. With \<open>prac_code_freefunc\<close> registered for
  \<open>extra_idx\<close>, an intercepted call followed by the destruction of the code object leaves
  every reference count as the destruction alone would have left it: the reference the
  call takes is given back, once. A call through a code object whose slot is set changes
  no reference count.
\<close>

theorem release_exactly_once:
  "ob_refcnt (prac_code_freefunc extra s) =
     (case extra of Ptr fn \<Rightarrow> (ob_refcnt s)(fn := ob_refcnt s fn - 1) | _ \<Rightarrow> ob_refcnt s) \<and>
   ((\<forall>j. j \<noteq> extra_idx s \<longrightarrow> co_extra s (co_addr code) j = NULL) \<and>
    extra_idx s < co_extra_user_count s \<and>
    co_extra_freefuncs s (extra_idx s) = Some Prac_code_freefunc \<longrightarrow>
      ob_refcnt (code_dealloc code s) =
        ob_refcnt (prac_code_freefunc (co_extra s (co_addr code) (extra_idx s)) s)) \<and>
   ob_refcnt (code_dealloc code (code_dealloc code s)) = ob_refcnt (code_dealloc code s) \<and>
   (prac_eval_frame env tstate f exc s = Inr (r, s') \<and>
    extra_idx s < co_extra_user_count s \<and>
    co_extra_freefuncs s (extra_idx s) = Some Prac_code_freefunc \<longrightarrow>
      ob_refcnt (code_dealloc (f_code f) s') = ob_refcnt (code_dealloc (f_code f) s)) \<and>
   (prac_eval_frame env tstate f exc s = Inr (r, s') \<and>
    co_extra s (co_addr (f_code f)) (extra_idx s) \<noteq> NULL \<longrightarrow>
      ob_refcnt s' = ob_refcnt s)"
proof -
  have callback: "ob_refcnt (prac_code_freefunc extra s) =
     (case extra of Ptr fn \<Rightarrow> (ob_refcnt s)(fn := ob_refcnt s fn - 1) | _ \<Rightarrow> ob_refcnt s)"
    by (cases extra) (simp_all add: prac_code_freefunc_def Py_DECREF_def)
  have single: "ob_refcnt (code_dealloc code s) =
        ob_refcnt (prac_code_freefunc (co_extra s (co_addr code) (extra_idx s)) s)"
    if "(\<forall>j. j \<noteq> extra_idx s \<longrightarrow> co_extra s (co_addr code) j = NULL) \<and>
      extra_idx s < co_extra_user_count s \<and>
      co_extra_freefuncs s (extra_idx s) = Some Prac_code_freefunc"
  proof -
    from that extras_loop_one_slot [of "extra_idx s" s "co_addr code" "co_extra_user_count s"]
    show ?thesis
      by (simp add: code_dealloc_def)
  qed
  have twice: "ob_refcnt (code_dealloc code (code_dealloc code s)) =
      ob_refcnt (code_dealloc code s)"
  proof -
    have "\<forall>j < co_extra_user_count (code_dealloc code s).
        co_extra (code_dealloc code s) (co_addr code) j = NULL"
      by (simp add: code_dealloc_def)
    from extras_loop_unused [OF this] show ?thesis
      by (simp add: code_dealloc_def [of code "code_dealloc code s"])
  qed
  have balance: "ob_refcnt (code_dealloc (f_code f) s') = ob_refcnt (code_dealloc (f_code f) s)"
    if "prac_eval_frame env tstate f exc s = Inr (r, s') \<and>
      extra_idx s < co_extra_user_count s \<and>
      co_extra_freefuncs s (extra_idx s) = Some Prac_code_freefunc"
  proof -
    from that have call: "prac_eval_frame env tstate f exc s = Inr (r, s')"
      and reserved: "extra_idx s < co_extra_user_count s"
      and registered: "co_extra_freefuncs s (extra_idx s) = Some Prac_code_freefunc"
      by simp_all
    from prac_eval_frame_tables [OF call] have
      tables: "co_extra_freefuncs s' = co_extra_freefuncs s"
        "co_extra_user_count s' = co_extra_user_count s"
      by simp_all
    have "ob_refcnt (extras_loop (co_extra_user_count s) (co_addr (f_code f)) s') =
        ob_refcnt (extras_loop (co_extra_user_count s) (co_addr (f_code f)) s)"
    proof (cases "co_extra s (co_addr (f_code f)) (extra_idx s) = NULL")
      case True
      from prac_eval_frame_first [OF call True] obtain func where
        slots: "co_extra s' = (co_extra s)(co_addr (f_code f) :=
             (co_extra s (co_addr (f_code f)))(extra_idx s :=
                (case func of Some fn \<Rightarrow> Ptr fn | None \<Rightarrow> SENTINEL)))" and
        counts: "ob_refcnt s' = (case func of None \<Rightarrow> ob_refcnt s
                           | Some fn \<Rightarrow> (ob_refcnt s)(fn := ob_refcnt s fn + 1))"
        by blast
      from slots have "co_extra s' (co_addr (f_code f)) =
          (co_extra s (co_addr (f_code f)))(extra_idx s :=
             (case func of Some fn \<Rightarrow> Ptr fn | None \<Rightarrow> SENTINEL))"
        by simp
      from extras_loop_balance [OF tables(1) this True counts registered,
          of "co_extra_user_count s"] reserved
      show ?thesis by simp
    next
      case False
      from prac_eval_frame_later [OF call False] obtain e where "s' = s\<lparr>curexc := e\<rparr>" ..
      then show ?thesis
        by (intro extras_loop_cong) simp_all
    qed
    with tables(2) show ?thesis
      by (simp add: code_dealloc_def)
  qed
  have later: "ob_refcnt s' = ob_refcnt s"
    if "prac_eval_frame env tstate f exc s = Inr (r, s') \<and>
      co_extra s (co_addr (f_code f)) (extra_idx s) \<noteq> NULL"
  proof -
    from that prac_eval_frame_later [of env tstate f exc s r s'] show ?thesis
      by auto
  qed
  from callback single twice balance later show ?thesis
    by blast
qed

theorem release_exactly_once_witness:
  "(\<exists>r s'. prac_eval_frame example_env 0
             \<lparr>f_code = \<lparr>co_addr = 100, co_varnames = [''x'', ''y'']\<rparr>,
              f_localsplus = [Some 20, Some 21]\<rparr> 0 enabled_state = Inr (r, s') \<and>
          co_extra s' 100 0 = Ptr 10 \<and> ob_refcnt s' 10 = 2 \<and>
          ob_refcnt (code_dealloc \<lparr>co_addr = 100, co_varnames = [''x'', ''y'']\<rparr> s') 10 = 1 \<and>
          ob_refcnt (code_dealloc \<lparr>co_addr = 100, co_varnames = [''x'', ''y'']\<rparr> s') =
            ob_refcnt enabled_state) \<and>
   (\<exists>r s'. prac_eval_frame example_env 0
             \<lparr>f_code = \<lparr>co_addr = 100, co_varnames = [''x'', ''y'']\<rparr>,
              f_localsplus = [Some 20, Some 21]\<rparr> 0
             (enabled_state\<lparr>co_extra_user_count := 2,
                co_extra_freefuncs := (\<lambda>idx. None)(0 \<mapsto> Prac_code_freefunc, 1 \<mapsto> Prac_code_freefunc),
                extra_idx := 1,
                co_extra := (\<lambda>code idx. if code = 100 \<and> idx = 0 then Ptr 10 else NULL),
                ob_refcnt := (\<lambda>ob. if ob = 10 then 2 else 1)\<rparr>) = Inr (r, s') \<and>
          co_extra s' 100 0 = Ptr 10 \<and> co_extra s' 100 1 = Ptr 10 \<and> ob_refcnt s' 10 = 3 \<and>
          ob_refcnt (code_dealloc \<lparr>co_addr = 100, co_varnames = [''x'', ''y'']\<rparr> s') 10 = 1)"
proof -
  let ?code = "\<lparr>co_addr = 100, co_varnames = [''x'', ''y'']\<rparr>"
  let ?f = "\<lparr>f_code = ?code, f_localsplus = [Some 20, Some 21]\<rparr>"
  let ?twice = "enabled_state\<lparr>co_extra_user_count := 2,
                co_extra_freefuncs := (\<lambda>idx. None)(0 \<mapsto> Prac_code_freefunc, 1 \<mapsto> Prac_code_freefunc),
                extra_idx := 1,
                co_extra := (\<lambda>code idx. if code = 100 \<and> idx = 0 then Ptr 10 else NULL),
                ob_refcnt := (\<lambda>ob. if ob = 10 then 2 else 1)\<rparr>"
  note defs = example_defs prac_eval_frame_def PyCode_GetExtra_def PyCode_SetExtra_def
    get_function_for_code_def check_then_eval_def do_type_checking_def Py_INCREF_def
  define res where "res = projr (prac_eval_frame example_env 0 ?f 0 enabled_state)"
  have call: "prac_eval_frame example_env 0 ?f 0 enabled_state = Inr (fst res, snd res)"
    unfolding res_def by (simp add: defs)
  have slot: "co_extra (snd res) 100 0 = Ptr 10" and count: "ob_refcnt (snd res) 10 = 2"
    unfolding res_def by (simp_all add: defs)
  have registered: "extra_idx enabled_state < co_extra_user_count enabled_state \<and>
      co_extra_freefuncs enabled_state (extra_idx enabled_state) = Some Prac_code_freefunc"
    by (simp add: example_defs)
  have unused: "\<forall>j. j \<noteq> extra_idx enabled_state \<longrightarrow>
      co_extra enabled_state (co_addr ?code) j = NULL"
    by (simp add: example_defs)
  from release_exactly_once [of NULL enabled_state ?code example_env 0 ?f 0
      "fst res" "snd res"] call registered unused
  have "ob_refcnt (code_dealloc ?code (snd res)) = ob_refcnt enabled_state"
    by (simp add: example_defs prac_code_freefunc_def)
  moreover from this have "ob_refcnt (code_dealloc ?code (snd res)) 10 = 1"
    by (simp add: example_defs)
  ultimately have one: "\<exists>r s'. prac_eval_frame example_env 0 ?f 0 enabled_state = Inr (r, s') \<and>
          co_extra s' 100 0 = Ptr 10 \<and> ob_refcnt s' 10 = 2 \<and>
          ob_refcnt (code_dealloc ?code s') 10 = 1 \<and>
          ob_refcnt (code_dealloc ?code s') = ob_refcnt enabled_state"
    using call slot count by blast
  define res2 where "res2 = projr (prac_eval_frame example_env 0 ?f 0 ?twice)"
  have call2: "prac_eval_frame example_env 0 ?f 0 ?twice = Inr (fst res2, snd res2)"
    unfolding res2_def by (simp add: defs)
  have slots2: "co_extra (snd res2) 100 0 = Ptr 10" "co_extra (snd res2) 100 1 = Ptr 10"
    and count2: "ob_refcnt (snd res2) 10 = 3"
    unfolding res2_def by (simp_all add: defs)
  have registered2: "extra_idx ?twice < co_extra_user_count ?twice \<and>
      co_extra_freefuncs ?twice (extra_idx ?twice) = Some Prac_code_freefunc"
    by (simp add: example_defs)
  have before: "ob_refcnt (code_dealloc ?code ?twice) 10 = 1"
    by (simp add: example_defs code_dealloc_def numeral_2_eq_2 call_freefunc_def
        prac_code_freefunc_def Py_DECREF_def)
  from release_exactly_once [of NULL ?twice ?code example_env 0 ?f 0
      "fst res2" "snd res2"] call2 registered2
  have "ob_refcnt (code_dealloc ?code (snd res2)) = ob_refcnt (code_dealloc ?code ?twice)"
    by simp
  with before have "ob_refcnt (code_dealloc ?code (snd res2)) 10 = 1"
    by simp
  with call2 slots2 count2 have two: "\<exists>r s'. prac_eval_frame example_env 0 ?f 0 ?twice = Inr (r, s') \<and>
          co_extra s' 100 0 = Ptr 10 \<and> co_extra s' 100 1 = Ptr 10 \<and> ob_refcnt s' 10 = 3 \<and>
          ob_refcnt (code_dealloc ?code s') 10 = 1"
    by blast
  from one two show ?thesis
    by (rule conjI)
qed

subsection \<open>C10: what a second call of \<open>prac_enable\<close> does\<close>

text \<open>
  C10, as the program has it. A call of \<open>prac_enable\<close> that succeeds has reserved exactly
  one more slot index and made it \<open>extra_idx\<close>, with \<open>prac_code_freefunc\<close> registered for
  it. With a free index and the default routine installed in every interpreter, the call
  succeeds and installs \<open>prac_eval_frame\<close> in every interpreter. With a free index,
  assertions compiled in and some interpreter whose routine is not the default one, the
  call dies at the assertion. With no free index it returns \<^verbatim>\<open>NULL\<close> with a
  \<^verbatim>\<open>ValueError\<close>.
\<close>

theorem enable_reserves_fresh_slot:
  "(prac_enable env s = Inr (True, s1) \<longrightarrow>
      co_extra_user_count s1 = co_extra_user_count s + 1 \<and>
      extra_idx s1 = co_extra_user_count s \<and>
      co_extra_freefuncs s1 (extra_idx s1) = Some Prac_code_freefunc) \<and>
   (co_extra_user_count s \<noteq> MAX_CO_EXTRA_USERS - 1 \<and>
    (\<forall>func \<in> set (eval_frame s). func = PyEval_EvalFrameDefault) \<longrightarrow>
      (\<exists>s'. prac_enable env s = Inr (True, s') \<and>
         eval_frame s' = replicate (length (eval_frame s)) Prac_eval_frame)) \<and>
   (co_extra_user_count s \<noteq> MAX_CO_EXTRA_USERS - 1 \<and> assertions_enabled env \<and>
    (\<exists>func \<in> set (eval_frame s). func \<noteq> PyEval_EvalFrameDefault) \<longrightarrow>
      prac_enable env s = Inl Assertion_failed) \<and>
   (co_extra_user_count s = MAX_CO_EXTRA_USERS - 1 \<longrightarrow>
      prac_enable env s = Inr (False, PyErr_Format PyExc_ValueError ''used all code extras!'' s))"
proof -
  have success: "co_extra_user_count s1 = co_extra_user_count s + 1 \<and>
      extra_idx s1 = co_extra_user_count s \<and>
      co_extra_freefuncs s1 (extra_idx s1) = Some Prac_code_freefunc"
    if "prac_enable env s = Inr (True, s1)"
    using that
    by (auto simp: prac_enable_def PyEval_RequestCodeExtraIndex_def Let_def
        split: if_splits sum.splits)
  have default: "\<exists>s'. prac_enable env s = Inr (True, s') \<and>
         eval_frame s' = replicate (length (eval_frame s)) Prac_eval_frame"
    if "co_extra_user_count s \<noteq> MAX_CO_EXTRA_USERS - 1 \<and>
      (\<forall>func \<in> set (eval_frame s). func = PyEval_EvalFrameDefault)"
    using that
    by (simp add: prac_enable_def PyEval_RequestCodeExtraIndex_def interp_loop_default)
  have assertion: "prac_enable env s = Inl Assertion_failed"
    if "co_extra_user_count s \<noteq> MAX_CO_EXTRA_USERS - 1 \<and> assertions_enabled env \<and>
      (\<exists>func \<in> set (eval_frame s). func \<noteq> PyEval_EvalFrameDefault)"
    using that
    by (simp add: prac_enable_def PyEval_RequestCodeExtraIndex_def interp_loop_assert)
  have exhausted: "prac_enable env s =
      Inr (False, PyErr_Format PyExc_ValueError ''used all code extras!'' s)"
    if "co_extra_user_count s = MAX_CO_EXTRA_USERS - 1"
    using that
    by (simp add: prac_enable_def PyEval_RequestCodeExtraIndex_def)
  from success default assertion exhausted show ?thesis
    by blast
qed

theorem enable_reserves_fresh_slot_witness:
  "prac_enable example_env example_state = Inr (True, enabled_state) \<and>
   co_extra_user_count enabled_state = 1 \<and> extra_idx enabled_state = 0 \<and>
   co_extra_freefuncs enabled_state 0 = Some Prac_code_freefunc \<and>
   eval_frame enabled_state = [Prac_eval_frame] \<and>
   prac_enable example_env enabled_state = Inl Assertion_failed \<and>
   prac_enable example_env (example_state\<lparr>co_extra_user_count := 254\<rparr>) =
     Inr (False, PyErr_Format PyExc_ValueError ''used all code extras!''
                   (example_state\<lparr>co_extra_user_count := 254\<rparr>))"
proof -
  have first: "prac_enable example_env example_state = Inr (True, enabled_state)"
    by (simp add: prac_enable_def PyEval_RequestCodeExtraIndex_def MAX_CO_EXTRA_USERS_def
        example_defs)
  from enable_reserves_fresh_slot [of example_env example_state enabled_state] first
  have "co_extra_user_count enabled_state = 1 \<and> extra_idx enabled_state = 0 \<and>
      co_extra_freefuncs enabled_state 0 = Some Prac_code_freefunc \<and>
      eval_frame enabled_state = [Prac_eval_frame]"
    by (simp add: MAX_CO_EXTRA_USERS_def example_defs)
  moreover from enable_reserves_fresh_slot [of example_env enabled_state]
  have "prac_enable example_env enabled_state = Inl Assertion_failed"
    by (simp add: MAX_CO_EXTRA_USERS_def example_defs)
  moreover from enable_reserves_fresh_slot [of example_env
      "example_state\<lparr>co_extra_user_count := 254\<rparr>"]
  have "prac_enable example_env (example_state\<lparr>co_extra_user_count := 254\<rparr>) =
     Inr (False, PyErr_Format PyExc_ValueError ''used all code extras!''
                   (example_state\<lparr>co_extra_user_count := 254\<rparr>))"
    by (simp add: MAX_CO_EXTRA_USERS_def example_defs)
  ultimately show ?thesis
    using first by simp
qed

text \<open>
  C10 as it is written makes the operation idempotent. Built without assertions, a second
  call succeeds, reserves a second slot index and moves \<open>extra_idx\<close> to it; built with
  assertions, the second call dies at the assertion.
\<close>

theorem enable_idempotent_counterexample:
  "prac_enable (example_env\<lparr>assertions_enabled := False\<rparr>) example_state =
     Inr (True, enabled_state) \<and>
   prac_enable (example_env\<lparr>assertions_enabled := False\<rparr>) enabled_state =
     Inr (True, enabled_twice_state) \<and>
   co_extra_user_count enabled_state = 1 \<and> co_extra_user_count enabled_twice_state = 2 \<and>
   extra_idx enabled_state = 0 \<and> extra_idx enabled_twice_state = 1 \<and>
   prac_enable example_env enabled_state = Inl Assertion_failed"
  by (simp add: prac_enable_def PyEval_RequestCodeExtraIndex_def MAX_CO_EXTRA_USERS_def
      example_env_def example_state_def enabled_state_def enabled_twice_state_def)

end
